theory Spec2Isabelle
  imports Complex_Main "HOL-Library.AList" "HOL-Library.Multiset"
begin

section \<open>Exceptions\<close>

text \<open>
  The exceptions the modelled code can raise. \<open>StopIteration\<close> comes from
  \<^verbatim>\<open>next(iter(self._cache))\<close> on an empty dict, \<open>ValueError\<close> from
  \<^verbatim>\<open>raise ValueError("Model not trained yet")\<close>, \<open>IndexError\<close> from a positional
  read (\<^verbatim>\<open>iloc\<close>, array row selection) outside the data.
\<close>

datatype error = StopIteration | ValueError | IndexError

section \<open>backend/cache.py: TTLCache\<close>

text \<open>
  \<^verbatim>\<open>self._cache\<close> is a Python dict from key to \<^verbatim>\<open>(value, expiry)\<close>. A dict iterates
  in insertion order: a new key goes to the end, an assignment to a key that is already
  there keeps the key's place, a deleted key leaves the order of the others alone. The
  association list below is the dict in that order (\<open>AList.update\<close> and
  \<open>AList.delete\<close> behave exactly so). Instants are integers counting microseconds,
  the resolution of \<^verbatim>\<open>datetime\<close>; \<^verbatim>\<open>datetime.utcnow()\<close> is the argument \<open>now\<close>.
\<close>

record 'v TTLCache =
  ttl_seconds :: int
  max_size :: int
  cache :: "(string \<times> ('v \<times> int)) list"

definition TTLCache_init :: "int \<Rightarrow> int \<Rightarrow> 'v TTLCache" where
  "TTLCache_init ttl sz = \<lparr>ttl_seconds = ttl, max_size = sz, cache = []\<rparr>"

text \<open>\<^verbatim>\<open>timedelta(seconds=self.ttl_seconds)\<close> in microseconds.\<close>

definition timedelta_seconds :: "int \<Rightarrow> int" where
  "timedelta_seconds s = s * 1000000"

text \<open>\<^verbatim>\<open>get\<close> returns the value (or \<open>None\<close>) and the cache as it leaves it.\<close>

definition TTLCache_get :: "int \<Rightarrow> string \<Rightarrow> 'v TTLCache \<Rightarrow> 'v option \<times> 'v TTLCache" where
  "TTLCache_get now key c =
     (case map_of (cache c) key of
        Some (val, expiry) \<Rightarrow>
          if now < expiry then (Some val, c)
          else (None, c\<lparr>cache := AList.delete key (cache c)\<rparr>)
      | None \<Rightarrow> (None, c))"

text \<open>
  \<^verbatim>\<open>set\<close>: when \<^verbatim>\<open>len(self._cache) >= self.max_size\<close> the first key of the dict is
  deleted; on an empty dict \<^verbatim>\<open>next(iter(...))\<close> raises and nothing is stored.
\<close>

definition TTLCache_set :: "int \<Rightarrow> string \<Rightarrow> 'v \<Rightarrow> 'v TTLCache \<Rightarrow> error + 'v TTLCache" where
  "TTLCache_set now key val c =
     (let store = (\<lambda>d. c\<lparr>cache := AList.update key (val, now + timedelta_seconds (ttl_seconds c)) d\<rparr>)
      in if max_size c \<le> int (length (cache c)) then
           (case cache c of
              [] \<Rightarrow> Inl StopIteration
            | (oldest_key, _) # _ \<Rightarrow> Inr (store (AList.delete oldest_key (cache c))))
         else Inr (store (cache c)))"

definition TTLCache_clear :: "'v TTLCache \<Rightarrow> 'v TTLCache" where
  "TTLCache_clear c = c\<lparr>cache := []\<rparr>"

definition TTLCache_remove :: "string \<Rightarrow> 'v TTLCache \<Rightarrow> 'v TTLCache" where
  "TTLCache_remove key c =
     (if key \<in> fst ` set (cache c) then c\<lparr>cache := AList.delete key (cache c)\<rparr> else c)"

text \<open>
  A run of \<^verbatim>\<open>set\<close> calls, one per \<open>(now, key, value)\<close>, stopping at the first
  exception as the caller's code would.
\<close>

fun set_all :: "(int \<times> string \<times> 'v) list \<Rightarrow> 'v TTLCache \<Rightarrow> error + 'v TTLCache" where
  "set_all [] c = Inr c"
| "set_all ((now, key, val) # rest) c =
     (case TTLCache_set now key val c of Inl e \<Rightarrow> Inl e | Inr c' \<Rightarrow> set_all rest c')"

text \<open>The keys of the dict, in iteration order.\<close>

definition keys :: "'v TTLCache \<Rightarrow> string list" where
  "keys c = map fst (cache c)"

section \<open>Python lists and dicts\<close>

text \<open>The slice \<^verbatim>\<open>xs[:k]\<close>; a negative \<open>k\<close> drops that many items from the end.\<close>

definition slice_to :: "int \<Rightarrow> 'a list \<Rightarrow> 'a list" where
  "slice_to k xs = (if 0 \<le> k then take (nat k) xs else take (length xs - nat (- k)) xs)"

text \<open>
  \<^verbatim>\<open>xs.sort(key=f, reverse=True)\<close>: descending by key, and stable (items with equal
  keys keep the order they had), as Python documents for \<^verbatim>\<open>reverse=True\<close>.
\<close>

definition sort_reverse :: "('a \<Rightarrow> real) \<Rightarrow> 'a list \<Rightarrow> 'a list" where
  "sort_reverse f xs = sort_key (\<lambda>x. - f x) xs"

text \<open>\<^verbatim>\<open>dict(pairs)\<close>: a later pair with a key seen before overwrites its value in place.\<close>

definition dict_of :: "(string \<times> real) list \<Rightarrow> (string \<times> real) list" where
  "dict_of pairs = foldl (\<lambda>d (k, v). AList.update k v d) [] pairs"

text \<open>\<^verbatim>\<open>d.get(k, default)\<close>.\<close>

definition dict_get :: "(string \<times> real) list \<Rightarrow> string \<Rightarrow> real \<Rightarrow> real" where
  "dict_get d k dflt = (case map_of d k of None \<Rightarrow> dflt | Some v \<Rightarrow> v)"

text \<open>
  Python does not fix the order in which a \<^verbatim>\<open>set\<close> of strings is iterated: it follows
  the strings' hashes, which change from one process to the next. A \<open>set_order\<close> maps
  the keys put into the set to the order in which a loop over the set meets them. It is
  an argument of everything that iterates a set; \<open>lists_once\<close> says that it yields
  every member exactly once for the keys \<open>ks\<close>.
\<close>

type_synonym set_order = "string list \<Rightarrow> string list"

definition lists_once :: "set_order \<Rightarrow> string list \<Rightarrow> bool" where
  "lists_once iter ks \<longleftrightarrow> distinct (iter ks) \<and> set (iter ks) = set ks"

section \<open>Data frames\<close>

text \<open>
  \<^verbatim>\<open>products.csv\<close> as its rows in file order; \<^verbatim>\<open>read_csv\<close> numbers them
  \<open>0, 1, ...\<close>, so a row's index label is its position. Scores, prices and
  quantities are real numbers (the code computes with floats).
\<close>

record product =
  stock_code :: string
  description :: string
  category :: string
  price :: real
  popularity_score :: real

text \<open>
  The user-item matrix: one row per user id, holding the quantity for every product
  column, in column order. User ids are taken to be unique.
\<close>

type_synonym user_item = "(string \<times> (string \<times> real) list) list"

text \<open>\<^verbatim>\<open>user_row[user_row > 0].index.tolist()\<close>.\<close>

definition positive_columns :: "(string \<times> real) list \<Rightarrow> string list" where
  "positive_columns user_row = map fst (filter (\<lambda>(p, q). 0 < q) user_row)"

text \<open>\<^verbatim>\<open>df.nlargest(n, 'popularity_score')\<close>: the first \<open>n\<close> rows by descending
  popularity, earlier rows first among equals; nothing for \<open>n \<le> 0\<close>.\<close>

definition nlargest :: "int \<Rightarrow> product list \<Rightarrow> product list" where
  "nlargest n rows = take (nat n) (sort_reverse popularity_score rows)"

text \<open>\<^verbatim>\<open>df[df['stock_code'] == product_id].index[0]\<close>, given that the code occurs.\<close>

fun first_index :: "string \<Rightarrow> product list \<Rightarrow> nat" where
  "first_index p [] = 0"
| "first_index p (row # rows) = (if stock_code row = p then 0 else Suc (first_index p rows))"

section \<open>ml_pipeline/collaborative_filtering.py\<close>

text \<open>
  \<open>est cf u p\<close> stands for \<^verbatim>\<open>self.model.predict(u, p).est\<close> of the fitted SVD model,
  which returns an estimate for every pair, known or not.
\<close>

record CollaborativeFilter =
  trained :: bool
  user_item_df :: user_item
  est :: "string \<Rightarrow> string \<Rightarrow> real"

definition predict_for_user ::
  "CollaborativeFilter \<Rightarrow> string \<Rightarrow> string list \<Rightarrow> int \<Rightarrow> error + (string \<times> real) list" where
  "predict_for_user cf user_id product_ids top_k =
     (if \<not> trained cf then Inl ValueError
      else
        let purchased_products =
              (case map_of (user_item_df cf) user_id of
                 Some user_row \<Rightarrow> positive_columns user_row
               | None \<Rightarrow> []);
            predictions =
              map (\<lambda>product_id. (product_id, est cf user_id product_id))
                (filter (\<lambda>product_id. product_id \<notin> set purchased_products) product_ids)
        in Inr (slice_to top_k (sort_reverse snd predictions)))"

section \<open>ml_pipeline/content_based_filtering.py\<close>

record ContentBasedFilter =
  cbf_products_df :: "product list"
  similarity_matrix :: "real list list"

definition get_popular_products :: "ContentBasedFilter \<Rightarrow> int \<Rightarrow> (string \<times> real) list" where
  "get_popular_products cbf top_k =
     map (\<lambda>row. (stock_code row, popularity_score row / 100)) (nlargest top_k (cbf_products_df cbf))"

text \<open>\<^verbatim>\<open>matrix[indices]\<close>: the rows at these positions; a position past the end raises.\<close>

fun select_rows :: "real list list \<Rightarrow> nat list \<Rightarrow> error + real list list" where
  "select_rows m [] = Inr []"
| "select_rows m (i # rest) =
     (if i < length m then
        (case select_rows m rest of Inl e \<Rightarrow> Inl e | Inr rows \<Rightarrow> Inr (m ! i # rows))
      else Inl IndexError)"

text \<open>\<^verbatim>\<open>rows.mean(axis=0)\<close>: the mean of every column.\<close>

definition mean_axis0 :: "real list list \<Rightarrow> real list" where
  "mean_axis0 rows = map (\<lambda>column. sum_list column / real (length column)) (transpose rows)"

definition recommend_for_user ::
  "ContentBasedFilter \<Rightarrow> string list \<Rightarrow> string list \<Rightarrow> int \<Rightarrow> error + (string \<times> real) list" where
  "recommend_for_user cbf user_purchase_history all_products top_k =
     (if user_purchase_history = [] then Inr (get_popular_products cbf top_k)
      else
        let codes = map stock_code (cbf_products_df cbf);
            purchased_indices =
              map (\<lambda>product_id. first_index product_id (cbf_products_df cbf))
                (filter (\<lambda>product_id. product_id \<in> set codes) user_purchase_history)
        in if purchased_indices = [] then Inr (get_popular_products cbf top_k)
           else
             (case select_rows (similarity_matrix cbf) purchased_indices of
                Inl e \<Rightarrow> Inl e
              | Inr rows \<Rightarrow>
                  let avg_similarity = mean_axis0 rows
                  in if length codes < length avg_similarity then Inl IndexError
                     else
                       let recommendations =
                             filter (\<lambda>(product_id, score).
                                 product_id \<notin> set user_purchase_history \<and> product_id \<in> set all_products)
                               (zip codes avg_similarity)
                       in Inr (slice_to top_k (sort_reverse snd recommendations))))"

section \<open>ml_pipeline/hybrid_engine.py: HybridRecommender\<close>

text \<open>
  The recommender after \<^verbatim>\<open>load_models\<close>: the two models, the catalog and the
  user-item matrix are there. A recommendation is a Python dict; the dicts built for a
  new user carry \<^verbatim>\<open>'source'\<close>, the blended ones \<^verbatim>\<open>'cbf_score'\<close> and \<^verbatim>\<open>'cf_score'\<close>.
  \<^verbatim>\<open>'processing_time_ms'\<close>, a wall-clock reading, is left out.
\<close>

record HybridRecommender =
  collaborative_weight :: real
  content_weight :: real
  min_purchases_for_cf :: int
  cf_model :: CollaborativeFilter
  cbf_model :: ContentBasedFilter
  products_df :: "product list"
  user_item_matrix :: user_item

datatype origin = Source string | Blend real real

record scored =
  product_id :: string
  score :: real
  origin :: origin

record enriched = scored +
  product_name :: string
  rec_category :: string
  rec_price :: real
  popularity :: real

record recommendation = enriched +
  rec_method :: string

text \<open>Which model a call reached, in call order.\<close>

datatype signal = Content | Collaborative

definition get_user_purchase_history :: "HybridRecommender \<Rightarrow> string \<Rightarrow> string list" where
  "get_user_purchase_history h user_id =
     (case map_of (user_item_matrix h) user_id of
        None \<Rightarrow> []
      | Some user_row \<Rightarrow> positive_columns user_row)"

definition cold_start_recommend :: "HybridRecommender \<Rightarrow> string list \<Rightarrow> int \<Rightarrow> scored list" where
  "cold_start_recommend h all_products top_k =
     map (\<lambda>row. \<lparr>product_id = stock_code row, score = popularity_score row / 100,
                  origin = Source ''popularity''\<rparr>)
       (nlargest top_k (products_df h))"

text \<open>
  The block under \<^verbatim>\<open># Normalize CBF scores\<close>, repeated for the CF scores:
  \<^verbatim>\<open>if d: m = max(d.values()); d = {k: v/m if m > 0 else v for k, v in d.items()}\<close>.
\<close>

definition normalize :: "(string \<times> real) list \<Rightarrow> (string \<times> real) list" where
  "normalize d =
     (case map snd d of
        [] \<Rightarrow> d
      | v # vs \<Rightarrow> let m = fold max vs v in map (\<lambda>(k, v). (k, if 0 < m then v / m else v)) d)"

definition combine_scores ::
  "set_order \<Rightarrow> (string \<times> real) list \<Rightarrow> (string \<times> real) list \<Rightarrow> real \<Rightarrow> real \<Rightarrow> scored list" where
  "combine_scores iter cbf_recs cf_recs cbf_weight cf_weight =
     (let cbf_dict = normalize (dict_of cbf_recs);
          cf_dict = normalize (dict_of cf_recs);
          all_products = iter (map fst cbf_dict @ map fst cf_dict);
          combined =
            map (\<lambda>pid.
                let cbf_score = dict_get cbf_dict pid 0;
                    cf_score = dict_get cf_dict pid 0;
                    final_score = cbf_weight * cbf_score + cf_weight * cf_score
                in \<lparr>product_id = pid, score = final_score, origin = Blend cbf_score cf_score\<rparr>)
              all_products
      in sort_reverse score combined)"

text \<open>The bare \<^verbatim>\<open>except:\<close> turns any exception of the collaborative model into \<open>[]\<close>.\<close>

definition warm_start_recommend ::
  "set_order \<Rightarrow> HybridRecommender \<Rightarrow> string \<Rightarrow> string list \<Rightarrow> string list \<Rightarrow> int
     \<Rightarrow> signal list \<times> (error + scored list)" where
  "warm_start_recommend iter h user_id purchase_history all_products top_k =
     (case recommend_for_user (cbf_model h) purchase_history all_products (top_k * 2) of
        Inl e \<Rightarrow> ([Content], Inl e)
      | Inr cbf_recs \<Rightarrow>
          let cf_recs =
                (case predict_for_user (cf_model h) user_id all_products (top_k * 2) of
                   Inl e \<Rightarrow> []
                 | Inr recs \<Rightarrow> recs);
              combined = combine_scores iter cbf_recs cf_recs (7 / 10) (3 / 10)
          in ([Content, Collaborative], Inr (slice_to top_k combined)))"

definition hybrid_recommend ::
  "set_order \<Rightarrow> HybridRecommender \<Rightarrow> string \<Rightarrow> string list \<Rightarrow> string list \<Rightarrow> int
     \<Rightarrow> signal list \<times> (error + scored list)" where
  "hybrid_recommend iter h user_id purchase_history all_products top_k =
     (case recommend_for_user (cbf_model h) purchase_history all_products (top_k * 2) of
        Inl e \<Rightarrow> ([Content], Inl e)
      | Inr cbf_recs \<Rightarrow>
          (case predict_for_user (cf_model h) user_id all_products (top_k * 2) of
             Inl e \<Rightarrow> ([Content, Collaborative], Inl e)
           | Inr cf_recs \<Rightarrow>
               let combined =
                     combine_scores iter cbf_recs cf_recs (content_weight h) (collaborative_weight h)
               in ([Content, Collaborative], Inr (slice_to top_k combined))))"

fun enrich_recommendations :: "HybridRecommender \<Rightarrow> scored list \<Rightarrow> enriched list" where
  "enrich_recommendations h [] = []"
| "enrich_recommendations h (r # recommendations) =
     (case filter (\<lambda>row. stock_code row = product_id r) (products_df h) of
        [] \<Rightarrow> enrich_recommendations h recommendations
      | product_info # _ \<Rightarrow>
          \<lparr>product_id = product_id r, score = score r, origin = origin r,
           product_name = description product_info, rec_category = category product_info,
           rec_price = price product_info, popularity = popularity_score product_info\<rparr>
          # enrich_recommendations h recommendations)"

definition add_method :: "string \<Rightarrow> enriched \<Rightarrow> recommendation" where
  "add_method m r =
     \<lparr>product_id = product_id r, score = score r, origin = origin r,
      product_name = product_name r, rec_category = rec_category r,
      rec_price = rec_price r, popularity = popularity r, rec_method = m\<rparr>"

text \<open>
  \<^verbatim>\<open>recommend\<close> returns the models it called and either the exception that reached the
  caller or the list it returns.
\<close>

definition recommend ::
  "set_order \<Rightarrow> HybridRecommender \<Rightarrow> string \<Rightarrow> int \<Rightarrow> bool
     \<Rightarrow> signal list \<times> (error + recommendation list)" where
  "recommend iter h user_id top_k exclude_purchased =
     (let purchase_history = get_user_purchase_history h user_id;
          num_purchases = int (length purchase_history);
          all_products = map stock_code (products_df h);
          (calls, found, m) =
            (if num_purchases = 0 then
               ([], Inr (cold_start_recommend h all_products top_k), ''cold_start'')
             else if num_purchases < min_purchases_for_cf h then
               (let (calls, found) =
                      warm_start_recommend iter h user_id purchase_history all_products top_k
                in (calls, found, ''warm_start''))
             else
               (let (calls, found) =
                      hybrid_recommend iter h user_id purchase_history all_products top_k
                in (calls, found, ''hybrid'')))
      in case found of
           Inl e \<Rightarrow> (calls, Inl e)
         | Inr recommendations \<Rightarrow>
             let recommendations =
                   (if exclude_purchased then
                      filter (\<lambda>r. product_id r \<notin> set purchase_history) recommendations
                    else recommendations)
             in (calls, Inr (map (add_method m)
                               (enrich_recommendations h (slice_to top_k recommendations)))))"

section \<open>Example data\<close>

text \<open>
  A shop of six products and three users: \<open>new\<close> has bought nothing, \<open>warm\<close> one
  product and \<open>full\<close> five. The recommender has the default configuration.
\<close>

definition item :: "string \<Rightarrow> real \<Rightarrow> product" where
  "item code pop =
     \<lparr>stock_code = code, description = ''item '' @ code, category = ''gift'', price = 2,
      popularity_score = pop\<rparr>"

definition shop_catalog :: "product list" where
  "shop_catalog =
     [item ''A'' 90, item ''B'' 50, item ''C'' 10, item ''D'' 8, item ''E'' 6, item ''F'' 4]"

definition shop_matrix :: user_item where
  "shop_matrix =
     [(''new'', [(''A'', 0), (''B'', 0), (''C'', 0), (''D'', 0), (''E'', 0), (''F'', 0)]),
      (''warm'', [(''A'', 1), (''B'', 0), (''C'', 0), (''D'', 0), (''E'', 0), (''F'', 0)]),
      (''full'', [(''A'', 1), (''B'', 2), (''C'', 1), (''D'', 3), (''E'', 1), (''F'', 0)])]"

definition shop_cf :: CollaborativeFilter where
  "shop_cf =
     \<lparr>trained = True, user_item_df = shop_matrix,
      est = (\<lambda>u p. if p = ''F'' then 80 else if p = ''B'' then 60 else 20)\<rparr>"

definition shop_cbf :: ContentBasedFilter where
  "shop_cbf =
     \<lparr>cbf_products_df = shop_catalog,
      similarity_matrix =
        [[1, 1 / 2, 1 / 4, 0, 0, 0],
         [1 / 2, 1, 0, 0, 0, 0],
         [1 / 4, 0, 1, 0, 0, 0],
         [0, 0, 0, 1, 0, 0],
         [0, 0, 0, 0, 1, 1 / 2],
         [0, 0, 0, 0, 1 / 2, 1]]\<rparr>"

definition shop :: HybridRecommender where
  "shop =
     \<lparr>collaborative_weight = 6 / 10, content_weight = 4 / 10, min_purchases_for_cf = 5,
      cf_model = shop_cf, cbf_model = shop_cbf, products_df = shop_catalog,
      user_item_matrix = shop_matrix\<rparr>"

text \<open>The same shop with a collaborative model that was saved before it was trained.\<close>

definition shop_untrained :: HybridRecommender where
  "shop_untrained = shop\<lparr>cf_model := shop_cf\<lparr>trained := False\<rparr>\<rparr>"

text \<open>
  A recommender whose content model was trained on an older catalog (it still knows
  \<open>X\<close>) than the \<^verbatim>\<open>products.csv\<close> it serves from; the user \<open>u\<close> has bought one
  product, \<open>P\<close>, that the content model does not know.
\<close>

definition stale :: HybridRecommender where
  "stale =
     \<lparr>collaborative_weight = 6 / 10, content_weight = 4 / 10, min_purchases_for_cf = 5,
      cf_model = \<lparr>trained = True, user_item_df = [], est = (\<lambda>u p. 1)\<rparr>,
      cbf_model = \<lparr>cbf_products_df = [item ''X'' 90, item ''B'' 50],
                   similarity_matrix = [[1, 0], [0, 1]]\<rparr>,
      products_df = [item ''B'' 50],
      user_item_matrix = [(''u'', [(''P'', 1), (''B'', 0)])]\<rparr>"

section \<open>Properties of TTLCache\<close>


lemma delete_head_distinct:
  "distinct (map fst (p # ps)) \<Longrightarrow> AList.delete (fst p) (p # ps) = ps"
  by (cases p) (force simp: AList.delete_eq filter_id_conv)

lemma update_keys_fresh:
  "k \<notin> fst ` set d \<Longrightarrow> map fst (AList.update k v d) = map fst d @ [k]"
  by (simp add: update_keys)

lemma TTLCache_set_room:
  "\<not> max_size c \<le> int (length (cache c)) \<Longrightarrow>
     TTLCache_set now k v c =
       Inr (c\<lparr>cache := AList.update k (v, now + timedelta_seconds (ttl_seconds c)) (cache c)\<rparr>)"
  by (simp add: TTLCache_set_def)

lemma TTLCache_set_full:
  assumes "max_size c \<le> int (length (cache c))" and "cache c \<noteq> []"
    and "distinct (map fst (cache c))"
  shows "TTLCache_set now k v c =
       Inr (c\<lparr>cache := AList.update k (v, now + timedelta_seconds (ttl_seconds c)) (tl (cache c))\<rparr>)"
proof -
  obtain p ps where ps: "cache c = p # ps" using assms(2) by (cases "cache c") auto
  have "AList.delete (fst p) (cache c) = ps"
    using delete_head_distinct assms(3) ps by metis
  then show ?thesis using assms(1) ps
    by (cases p) (simp add: TTLCache_set_def)
qed

lemma set_all_keys:
  fixes c :: "'v TTLCache"
  assumes "0 < max_size c"
    and "distinct (keys c @ map (\<lambda>x. fst (snd x)) ops)"
    and "int (length (keys c)) \<le> max_size c"
  shows "\<exists>c'. set_all ops c = Inr c' \<and> max_size c' = max_size c \<and> ttl_seconds c' = ttl_seconds c \<and>
           keys c' = drop (length (keys c) + length ops - nat (max_size c)) (keys c @ map (\<lambda>x. fst (snd x)) ops)"
  using assms
proof (induction ops arbitrary: c)
  case Nil
  then show ?case by (simp add: keys_def)
next
  case (Cons a ops)
  obtain now k v where a: "a = (now, k, v)" by (cases a) auto
  have kfresh: "k \<notin> set (keys c)" and dk: "distinct (keys c)"
    using Cons.prems(2) a by auto
  show ?case
  proof (cases "max_size c \<le> int (length (cache c))")
    case True
    then have len: "length (keys c) = nat (max_size c)" and ne: "cache c \<noteq> []"
      using Cons.prems(1,3) by (auto simp: keys_def)
    let ?c1 = "c\<lparr>cache := AList.update k (v, now + timedelta_seconds (ttl_seconds c)) (tl (cache c))\<rparr>"
    have s: "TTLCache_set now k v c = Inr ?c1"
      using TTLCache_set_full[OF True ne] dk by (simp add: keys_def)
    have "k \<notin> fst ` set (tl (cache c))"
      using kfresh ne by (cases "cache c") (auto simp: keys_def)
    then have k1: "keys ?c1 = tl (keys c) @ [k]"
      by (simp add: keys_def update_keys_fresh map_tl)
    have d1: "distinct (keys ?c1 @ map (\<lambda>x. fst (snd x)) ops)"
      using Cons.prems(2) a ne unfolding k1 by (cases "cache c") (auto simp: keys_def)
    have l1: "int (length (keys ?c1)) \<le> max_size ?c1"
      unfolding k1 using len ne Cons.prems(1) by (cases "cache c") (auto simp: keys_def)
    from Cons.IH[of ?c1, OF _ d1 l1] Cons.prems(1)
    obtain c' where c': "set_all ops ?c1 = Inr c'" "max_size c' = max_size c" "ttl_seconds c' = ttl_seconds c"
      "keys c' = drop (length (keys ?c1) + length ops - nat (max_size ?c1)) (keys ?c1 @ map (\<lambda>x. fst (snd x)) ops)"
      by auto
    have lk1: "length (keys ?c1) = nat (max_size c)"
      unfolding k1 using len ne by (cases "cache c") (auto simp: keys_def)
    have kne: "keys c \<noteq> []" using ne by (simp add: keys_def)
    have n1: "length (keys ?c1) + length ops - nat (max_size ?c1) = length ops"
      using lk1 by simp
    have "keys c' = drop (length ops) (keys ?c1 @ map (\<lambda>x. fst (snd x)) ops)"
      using c'(4) unfolding n1 .
    also have "\<dots> = drop (length ops) (tl (keys c) @ k # map (\<lambda>x. fst (snd x)) ops)"
      by (simp only: k1 append_assoc append_Cons append_Nil)
    also have "\<dots> = drop (Suc (length ops)) (keys c @ k # map (\<lambda>x. fst (snd x)) ops)"
      using kne by (cases "keys c") (simp_all del: drop_append)
    finally have "keys c' = drop (length (keys c) + length (a # ops) - nat (max_size c)) (keys c @ map (\<lambda>x. fst (snd x)) (a # ops))"
      using len a by simp
    then show ?thesis using c' s a by simp
  next
    case False
    let ?c1 = "c\<lparr>cache := AList.update k (v, now + timedelta_seconds (ttl_seconds c)) (cache c)\<rparr>"
    have s: "TTLCache_set now k v c = Inr ?c1"
      using TTLCache_set_room[OF False] .
    have k1: "keys ?c1 = keys c @ [k]"
      using kfresh by (simp add: keys_def update_keys_fresh)
    have d1: "distinct (keys ?c1 @ map (\<lambda>x. fst (snd x)) ops)"
      using Cons.prems(2) a unfolding k1 by auto
    have l1: "int (length (keys ?c1)) \<le> max_size ?c1"
      unfolding k1 using False by (auto simp: keys_def)
    from Cons.IH[of ?c1, OF _ d1 l1] Cons.prems(1)
    obtain c' where c': "set_all ops ?c1 = Inr c'" "max_size c' = max_size c" "ttl_seconds c' = ttl_seconds c"
      "keys c' = drop (length (keys ?c1) + length ops - nat (max_size ?c1)) (keys ?c1 @ map (\<lambda>x. fst (snd x)) ops)"
      by auto
    have "keys c' = drop (length (keys c) + length (a # ops) - nat (max_size c)) (keys c @ map (\<lambda>x. fst (snd x)) (a # ops))"
      using c'(4) a unfolding k1 by simp
    then show ?thesis using c' s a by simp
  qed
qed


lemma TTLCache_get_present:
  "map_of (cache c) k = Some (v, e) \<Longrightarrow>
     TTLCache_get t k c =
       (if t < e then (Some v, c) else (None, c\<lparr>cache := AList.delete k (cache c)\<rparr>))"
  by (simp add: TTLCache_get_def)

lemma TTLCache_set_returns:
  fixes c :: "'v TTLCache"
  assumes "0 < max_size c \<or> cache c \<noteq> []"
  shows "\<exists>c'. TTLCache_set now k v c = Inr c' \<and>
           map_of (cache c') k = Some (v, now + timedelta_seconds (ttl_seconds c))"
proof (cases "cache c")
  case Nil
  then show ?thesis using assms by (simp add: TTLCache_set_def update_conv')
next
  case (Cons p ps)
  then show ?thesis by (cases p) (simp add: TTLCache_set_def Let_def update_conv')
qed

text \<open>
  C4. A key whose entry is in the cache is returned by \<^verbatim>\<open>get\<close> exactly while the
  current time is before the entry's expiry; a read at or after the expiry returns
  \<open>None\<close> and deletes the entry; a key that is not there yields \<open>None\<close> and leaves
  the cache alone. \<^verbatim>\<open>set\<close> on a cache that can hold an entry stores the value with
  expiry \<open>now + ttl\<close>, so a \<^verbatim>\<open>get\<close> of that key returns the value at every instant
  before \<open>now + ttl\<close>, in particular at once when \<open>ttl > 0\<close>.
\<close>

theorem TTLCache_get_visible_until_expiry:
  fixes c c0 :: "'v TTLCache"
  shows "(map_of (cache c) k = Some (v, e) \<longrightarrow>
            (fst (TTLCache_get t k c) = Some v \<longleftrightarrow> t < e) \<and>
            (t < e \<longrightarrow> snd (TTLCache_get t k c) = c) \<and>
            (\<not> t < e \<longrightarrow> fst (TTLCache_get t k c) = None \<and>
               cache (snd (TTLCache_get t k c)) = AList.delete k (cache c) \<and>
               map_of (cache (snd (TTLCache_get t k c))) k = None)) \<and>
         (map_of (cache c) k = None \<longrightarrow> TTLCache_get t k c = (None, c)) \<and>
         (0 < max_size c0 \<or> cache c0 \<noteq> [] \<longrightarrow>
            (\<exists>c1. TTLCache_set t0 k v c0 = Inr c1 \<and>
               map_of (cache c1) k = Some (v, t0 + timedelta_seconds (ttl_seconds c0)) \<and>
               (\<forall>t'. fst (TTLCache_get t' k c1) = Some v \<longleftrightarrow>
                      t' < t0 + timedelta_seconds (ttl_seconds c0)) \<and>
               (0 < ttl_seconds c0 \<longrightarrow> fst (TTLCache_get t0 k c1) = Some v)))"
proof (intro conjI impI)
  assume "0 < max_size c0 \<or> cache c0 \<noteq> []"
  from TTLCache_set_returns[OF this, of t0 k v]
  obtain c1 where c1: "TTLCache_set t0 k v c0 = Inr c1"
     "map_of (cache c1) k = Some (v, t0 + timedelta_seconds (ttl_seconds c0))" by blast
  have "\<forall>t'. fst (TTLCache_get t' k c1) = Some v \<longleftrightarrow> t' < t0 + timedelta_seconds (ttl_seconds c0)"
    using c1(2) by (simp add: TTLCache_get_present)
  moreover have "0 < ttl_seconds c0 \<longrightarrow> fst (TTLCache_get t0 k c1) = Some v"
    using c1(2) by (simp add: TTLCache_get_present timedelta_seconds_def)
  ultimately show "\<exists>c1. TTLCache_set t0 k v c0 = Inr c1 \<and>
               map_of (cache c1) k = Some (v, t0 + timedelta_seconds (ttl_seconds c0)) \<and>
               (\<forall>t'. fst (TTLCache_get t' k c1) = Some v \<longleftrightarrow>
                      t' < t0 + timedelta_seconds (ttl_seconds c0)) \<and>
               (0 < ttl_seconds c0 \<longrightarrow> fst (TTLCache_get t0 k c1) = Some v)"
    using c1 by blast
qed (simp_all add: TTLCache_get_present TTLCache_get_def delete_conv')

theorem TTLCache_get_visible_until_expiry_witness:
  "map_of (cache \<lparr>ttl_seconds = 1, max_size = 2, cache = [(''a'', (7::nat, 1000000))]\<rparr>) ''a''
      = Some (7, 1000000) \<and>
   fst (TTLCache_get 999999 ''a'' \<lparr>ttl_seconds = 1, max_size = 2, cache = [(''a'', (7::nat, 1000000))]\<rparr>) = Some 7 \<and>
   fst (TTLCache_get 1000000 ''a'' \<lparr>ttl_seconds = 1, max_size = 2, cache = [(''a'', (7::nat, 1000000))]\<rparr>) = None \<and>
   cache (snd (TTLCache_get 1000000 ''a'' \<lparr>ttl_seconds = 1, max_size = 2, cache = [(''a'', (7::nat, 1000000))]\<rparr>)) = [] \<and>
   map_of (cache (TTLCache_init 1 2 :: nat TTLCache)) ''a'' = None \<and>
   TTLCache_get 5 ''a'' (TTLCache_init 1 2 :: nat TTLCache) = (None, TTLCache_init 1 2) \<and>
   (0 < max_size (TTLCache_init 1 2 :: nat TTLCache)) \<and>
   (\<exists>c1. TTLCache_set 0 ''a'' (7::nat) (TTLCache_init 1 2) = Inr c1 \<and>
      fst (TTLCache_get 0 ''a'' c1) = Some 7 \<and>
      fst (TTLCache_get 999999 ''a'' c1) = Some 7 \<and>
      fst (TTLCache_get 1000000 ''a'' c1) \<noteq> Some 7)"
  using TTLCache_get_visible_until_expiry
          [of "\<lparr>ttl_seconds = 1, max_size = 2, cache = [(''a'', (7::nat, 1000000))]\<rparr>"
              "''a''" 7 1000000 999999 "TTLCache_init 1 2" 0]
        TTLCache_get_visible_until_expiry
          [of "\<lparr>ttl_seconds = 1, max_size = 2, cache = [(''a'', (7::nat, 1000000))]\<rparr>"
              "''a''" 7 1000000 1000000 "TTLCache_init 1 2" 0]
  by (simp add: TTLCache_init_def timedelta_seconds_def TTLCache_get_def TTLCache_set_def)


lemma TTLCache_get_keys:
  "keys (snd (TTLCache_get t k c)) = keys c \<or> keys (snd (TTLCache_get t k c)) = removeAll k (keys c)"
  by (auto simp: TTLCache_get_def keys_def delete_keys split: option.splits)

lemma update_keys_if:
  "map fst (AList.update k v d) = (if k \<in> set (map fst d) then map fst d else map fst d @ [k])"
  by (simp add: update_keys)

text \<open>
  C3. On a cache at capacity that holds entries, \<^verbatim>\<open>set\<close> deletes exactly the first
  entry of the dict, the one inserted earliest among those present, and then stores the
  new entry. Reads do not move entries: a hit returns the cache unchanged, and any
  \<^verbatim>\<open>get\<close> leaves the other keys in their order. Setting \<open>max_size + 1\<close> distinct
  keys on an empty cache with \<open>max_size > 0\<close> leaves every key but the first.
\<close>

theorem TTLCache_set_evicts_oldest:
  fixes c :: "'v TTLCache"
  shows "(max_size c \<le> int (length (cache c)) \<and> cache c \<noteq> [] \<and> distinct (keys c) \<longrightarrow>
            (\<exists>c'. TTLCache_set now k v c = Inr c' \<and>
               cache c' = AList.update k (v, now + timedelta_seconds (ttl_seconds c)) (tl (cache c)) \<and>
               keys c' = (if k \<in> set (tl (keys c)) then tl (keys c) else tl (keys c) @ [k]) \<and>
               (k \<noteq> hd (keys c) \<longrightarrow> hd (keys c) \<notin> set (keys c')))) \<and>
         (map_of (cache c) k' = Some (v', e) \<and> t < e \<longrightarrow> snd (TTLCache_get t k' c) = c) \<and>
         (keys (snd (TTLCache_get t k' c)) = keys c \<or>
          keys (snd (TTLCache_get t k' c)) = removeAll k' (keys c)) \<and>
         (0 < m \<and> length ops = nat m + 1 \<and> distinct (map (\<lambda>x. fst (snd x)) ops) \<longrightarrow>
            (\<exists>c'. set_all ops (TTLCache_init ttl m :: 'v TTLCache) = Inr c' \<and>
               keys c' = tl (map (\<lambda>x. fst (snd x)) ops) \<and>
               hd (map (\<lambda>x. fst (snd x)) ops) \<notin> set (keys c')))"
proof (intro conjI impI)
  assume a: "max_size c \<le> int (length (cache c)) \<and> cache c \<noteq> [] \<and> distinct (keys c)"
  let ?c' = "c\<lparr>cache := AList.update k (v, now + timedelta_seconds (ttl_seconds c)) (tl (cache c))\<rparr>"
  have s: "TTLCache_set now k v c = Inr ?c'"
    using TTLCache_set_full[of c now k v] a by (simp add: keys_def)
  have k: "keys ?c' = (if k \<in> set (tl (keys c)) then tl (keys c) else tl (keys c) @ [k])"
    by (simp add: keys_def update_keys_if map_tl)
  have "hd (keys c) \<notin> set (tl (keys c))"
    using a by (cases "cache c") (auto simp: keys_def)
  then have "k \<noteq> hd (keys c) \<longrightarrow> hd (keys c) \<notin> set (keys ?c')"
    unfolding k by auto
  then show "\<exists>c'. TTLCache_set now k v c = Inr c' \<and>
               cache c' = AList.update k (v, now + timedelta_seconds (ttl_seconds c)) (tl (cache c)) \<and>
               keys c' = (if k \<in> set (tl (keys c)) then tl (keys c) else tl (keys c) @ [k]) \<and>
               (k \<noteq> hd (keys c) \<longrightarrow> hd (keys c) \<notin> set (keys c'))"
    using s k by (intro exI[of _ ?c']) simp
next
  assume "map_of (cache c) k' = Some (v', e) \<and> t < e"
  then show "snd (TTLCache_get t k' c) = c" by (simp add: TTLCache_get_present)
next
  show "keys (snd (TTLCache_get t k' c)) = keys c \<or>
        keys (snd (TTLCache_get t k' c)) = removeAll k' (keys c)"
    by (rule TTLCache_get_keys)
next
  assume a: "0 < m \<and> length ops = nat m + 1 \<and> distinct (map (\<lambda>x. fst (snd x)) ops)"
  let ?c0 = "TTLCache_init ttl m :: 'v TTLCache"
  let ?ks = "map (\<lambda>x. fst (snd x)) ops"
  have k0: "keys ?c0 = []" and m0: "max_size ?c0 = m"
    by (simp_all add: keys_def TTLCache_init_def)
  from set_all_keys[of ?c0 ops] a k0 m0
  obtain c' where c': "set_all ops ?c0 = Inr c'"
     "keys c' = drop (length (keys ?c0) + length ops - nat (max_size ?c0)) (keys ?c0 @ ?ks)"
    by auto
  have "keys c' = tl ?ks"
    using c'(2) a unfolding k0 m0 by (simp add: drop_Suc)
  moreover have "hd ?ks \<notin> set (tl ?ks)"
    using a by (cases ops) auto
  ultimately show "\<exists>c'. set_all ops ?c0 = Inr c' \<and> keys c' = tl ?ks \<and> hd ?ks \<notin> set (keys c')"
    using c'(1) by auto
qed

theorem TTLCache_set_evicts_oldest_witness:
  "(max_size \<lparr>ttl_seconds = 60, max_size = 2, cache = [(''a'', (1::nat, 100)), (''b'', (2, 200))]\<rparr>
      \<le> int (length (cache \<lparr>ttl_seconds = 60, max_size = 2, cache = [(''a'', (1::nat, 100)), (''b'', (2, 200))]\<rparr>))) \<and>
   distinct (keys \<lparr>ttl_seconds = 60, max_size = 2, cache = [(''a'', (1::nat, 100)), (''b'', (2, 200))]\<rparr>) \<and>
   (\<exists>c'. TTLCache_set 50 ''c'' 3 \<lparr>ttl_seconds = 60, max_size = 2, cache = [(''a'', (1::nat, 100)), (''b'', (2, 200))]\<rparr> = Inr c' \<and>
      keys c' = [''b'', ''c''] \<and> ''a'' \<notin> set (keys c')) \<and>
   snd (TTLCache_get 50 ''a'' \<lparr>ttl_seconds = 60, max_size = 2, cache = [(''a'', (1::nat, 100)), (''b'', (2, 200))]\<rparr>)
     = \<lparr>ttl_seconds = 60, max_size = 2, cache = [(''a'', (1::nat, 100)), (''b'', (2, 200))]\<rparr> \<and>
   (0::int) < 2 \<and> length [(0::int, ''a'', 1::nat), (1, ''b'', 2), (2, ''c'', 3)] = nat 2 + 1 \<and>
   (\<exists>c'. set_all [(0, ''a'', 1::nat), (1, ''b'', 2), (2, ''c'', 3)] (TTLCache_init 60 2) = Inr c' \<and>
      keys c' = [''b'', ''c''])"
  using TTLCache_set_evicts_oldest
          [of "\<lparr>ttl_seconds = 60, max_size = 2, cache = [(''a'', (1::nat, 100)), (''b'', (2, 200))]\<rparr>"
              50 "''c''" 3 "''a''" 1 100 50 2 "[(0, ''a'', 1::nat), (1, ''b'', 2), (2, ''c'', 3)]" 60]
  by (auto simp: keys_def)

section \<open>Properties of the score dicts\<close>

lemma fold_max_Max: "fold max vs (v::real) = Max (set (v # vs))"
  by (rule Max.set_eq_fold[symmetric])

lemma normalize_Nil: "normalize [] = []"
  by (simp add: normalize_def)

lemma normalize_nonempty:
  assumes "d \<noteq> []"
  shows "normalize d =
           map (\<lambda>(k, v). (k, if 0 < Max (snd ` set d) then v / Max (snd ` set d) else v)) d"
proof -
  obtain p ps where d: "d = p # ps" using assms by (cases d) auto
  have "fold max (map snd ps) (snd p) = Max (set (map snd (p # ps)))"
    by (simp only: fold_max_Max list.map)
  then have h: "fold max (map snd ps) (snd p) = Max (snd ` set d)"
    by (simp only: d set_map)
  have "normalize d =
          map (\<lambda>(k, v). (k, if 0 < fold max (map snd ps) (snd p)
                              then v / fold max (map snd ps) (snd p) else v)) d"
    unfolding d by (simp add: normalize_def Let_def)
  then show ?thesis unfolding h .
qed

lemma normalize_keys: "map fst (normalize d) = map fst d"
  by (cases "d = []") (auto simp: normalize_Nil normalize_nonempty)

lemma normalize_eq_Nil: "normalize d = [] \<longleftrightarrow> d = []"
  using normalize_keys[of d] by (metis map_is_Nil_conv)

lemma normalize_unchanged:
  assumes "d \<noteq> []" and "Max (snd ` set d) \<le> 0 \<or> Max (snd ` set d) = 1"
  shows "normalize d = d"
proof -
  have "map (\<lambda>(k, v). (k, if 0 < Max (snd ` set d) then v / Max (snd ` set d) else v)) d = map (\<lambda>x. x) d"
    using assms(2) by (intro map_cong) auto
  then show ?thesis using normalize_nonempty[OF assms(1)] by simp
qed

lemma Max_normalize:
  assumes "d \<noteq> []" and "0 < Max (snd ` set d)"
  shows "Max (snd ` set (normalize d)) = 1"
proof -
  let ?m = "Max (snd ` set d)"
  have img: "snd ` set (normalize d) = (\<lambda>v. v / ?m) ` (snd ` set d)"
    using assms by (force simp: normalize_nonempty image_iff)
  have "mono (\<lambda>v::real. v / ?m)"
    using assms(2) by (intro monoI) (simp add: divide_right_mono)
  then have "Max ((\<lambda>v. v / ?m) ` (snd ` set d)) = ?m / ?m"
    using assms(1) by (subst mono_Max_commute[symmetric]) auto
  then show ?thesis using img assms(2) by simp
qed

lemma normalize_idem: "normalize (normalize d) = normalize d"
proof (cases "d = []")
  case True
  then show ?thesis by (simp add: normalize_Nil)
next
  case False
  show ?thesis
  proof (cases "0 < Max (snd ` set d)")
    case True
    have "normalize d \<noteq> []" using False by (simp add: normalize_eq_Nil)
    then show ?thesis
      using normalize_unchanged[of "normalize d"] Max_normalize[OF False True] by simp
  next
    case F: False
    then have "normalize d = d" using normalize_unchanged[OF False] by simp
    then show ?thesis by simp
  qed
qed

lemma dict_of_foldl_keys:
  "fst ` set (foldl (\<lambda>d (k, v). AList.update k v d) d0 pairs) = fst ` set d0 \<union> fst ` set pairs"
proof (induction pairs arbitrary: d0)
  case Nil
  then show ?case by simp
next
  case (Cons p pairs)
  obtain k v where p: "p = (k, v)" by (cases p) auto
  have "fst ` set (foldl (\<lambda>d (k, v). AList.update k v d) (AList.update k v d0) pairs)
          = fst ` set (AList.update k v d0) \<union> fst ` set pairs"
    by (rule Cons.IH)
  also have "\<dots> = fst ` set d0 \<union> fst ` set (p # pairs)"
    unfolding dom_update p by auto
  finally show ?case by (simp add: p)
qed

lemma dict_of_foldl_distinct:
  "distinct (map fst d0) \<Longrightarrow> distinct (map fst (foldl (\<lambda>d (k, v). AList.update k v d) d0 pairs))"
  by (induction pairs arbitrary: d0) (auto simp: distinct_update split: prod.splits)

lemma dict_of_keys: "fst ` set (dict_of pairs) = fst ` set pairs"
  using dict_of_foldl_keys[of "[]" pairs] by (simp add: dict_of_def)

lemma normalize_key_set: "fst ` set (normalize d) = fst ` set d"
  using normalize_keys[of d] by (metis set_map)

lemma dict_of_distinct: "distinct (map fst (dict_of pairs))"
  using dict_of_foldl_distinct[of "[]" pairs] by (simp add: dict_of_def)

lemma dict_of_foldl_fresh:
  "distinct (map fst d0 @ map fst pairs) \<Longrightarrow>
     foldl (\<lambda>d (k, v). AList.update k v d) d0 pairs = d0 @ pairs"
proof (induction pairs arbitrary: d0)
  case Nil
  then show ?case by simp
next
  case (Cons p pairs)
  obtain k v where p: "p = (k, v)" by (cases p) auto
  have "k \<notin> fst ` set d0" using Cons.prems p by auto
  then have u: "AList.update k v d0 = d0 @ [(k, v)]"
    by (induction d0) auto
  have "distinct (map fst (d0 @ [(k, v)]) @ map fst pairs)"
    using Cons.prems p by auto
  from Cons.IH[OF this] show ?case using p u by simp
qed

lemma dict_of_distinct_id: "distinct (map fst pairs) \<Longrightarrow> dict_of pairs = pairs"
  using dict_of_foldl_fresh[of "[]" pairs] by (simp add: dict_of_def)

lemma sort_reverse_mset: "mset (sort_reverse f xs) = mset xs"
  by (simp add: sort_reverse_def)

lemma sort_reverse_set: "set (sort_reverse f xs) = set xs"
  by (simp add: sort_reverse_def)

lemma sort_reverse_sorted: "sorted_wrt (\<lambda>a b. f b \<le> f a) (sort_reverse f xs)"
proof -
  have "sorted (map (\<lambda>x. - f x) (sort_reverse f xs))"
    by (simp add: sort_reverse_def)
  then show ?thesis
    by (simp add: sorted_wrt_map)
qed

lemma sort_reverse_stable:
  "filter (\<lambda>y. f y = s) (sort_reverse f xs) = filter (\<lambda>y. f y = s) xs"
  using sort_key_stable[of "\<lambda>x. - f x" "- s" xs] by (simp add: sort_reverse_def)

lemma sort_reverse_unique:
  assumes "mset xs = mset ys" and "inj_on f (set xs)"
  shows "sort_reverse f xs = sort_reverse f ys"
proof -
  have "inj_on (\<lambda>x. - f x) (set xs)"
    using assms(2) by (auto simp: inj_on_def)
  moreover have "sorted (map (\<lambda>x. - f x) (sort_reverse f ys))"
    by (simp add: sort_reverse_def)
  moreover have "mset xs = mset (sort_reverse f ys)"
    using assms(1) by (simp add: sort_reverse_mset)
  ultimately show ?thesis
    unfolding sort_reverse_def[of f xs] by (rule sort_key_inj_key_eq[rotated -1, rotated -1])
qed


section \<open>Properties of the blending step\<close>

lemma combine_scores_eq:
  "combine_scores iter cbf_recs cf_recs cbf_weight cf_weight =
     sort_reverse score
       (map (\<lambda>pid. \<lparr>product_id = pid,
                    score = cbf_weight * dict_get (normalize (dict_of cbf_recs)) pid 0
                          + cf_weight * dict_get (normalize (dict_of cf_recs)) pid 0,
                    origin = Blend (dict_get (normalize (dict_of cbf_recs)) pid 0)
                                   (dict_get (normalize (dict_of cf_recs)) pid 0)\<rparr>)
          (iter (map fst (dict_of cbf_recs) @ map fst (dict_of cf_recs))))"
  by (simp add: combine_scores_def Let_def normalize_keys)

lemma combine_scores_member:
  assumes "r \<in> set (combine_scores iter cbf_recs cf_recs cbf_weight cf_weight)"
  shows "origin r = Blend (dict_get (normalize (dict_of cbf_recs)) (product_id r) 0)
                          (dict_get (normalize (dict_of cf_recs)) (product_id r) 0) \<and>
         score r = cbf_weight * dict_get (normalize (dict_of cbf_recs)) (product_id r) 0
                 + cf_weight * dict_get (normalize (dict_of cf_recs)) (product_id r) 0"
  using assms unfolding combine_scores_eq sort_reverse_set by auto

lemma combine_scores_ids:
  "map product_id (combine_scores iter cbf_recs cf_recs cbf_weight cf_weight) =
     map product_id (sort_reverse score
       (map (\<lambda>pid. \<lparr>product_id = pid,
                    score = cbf_weight * dict_get (normalize (dict_of cbf_recs)) pid 0
                          + cf_weight * dict_get (normalize (dict_of cf_recs)) pid 0,
                    origin = Blend (dict_get (normalize (dict_of cbf_recs)) pid 0)
                                   (dict_get (normalize (dict_of cf_recs)) pid 0)\<rparr>)
          (iter (map fst (dict_of cbf_recs) @ map fst (dict_of cf_recs)))))"
  by (simp only: combine_scores_eq)

lemma combine_scores_id_mset:
  "mset (map product_id (combine_scores iter cbf_recs cf_recs cbf_weight cf_weight)) =
     mset (iter (map fst (dict_of cbf_recs) @ map fst (dict_of cf_recs)))"
proof -
  have "mset (map product_id (combine_scores iter cbf_recs cf_recs cbf_weight cf_weight)) =
        image_mset product_id (mset (combine_scores iter cbf_recs cf_recs cbf_weight cf_weight))"
    by simp
  also have "\<dots> = mset (iter (map fst (dict_of cbf_recs) @ map fst (dict_of cf_recs)))"
    unfolding combine_scores_eq sort_reverse_mset
    by (simp add: image_mset.compositionality comp_def)
  finally show ?thesis .
qed

lemma dict_get_absent: "k \<notin> fst ` set pairs \<Longrightarrow> dict_get (normalize (dict_of pairs)) k 0 = 0"
proof -
  assume "k \<notin> fst ` set pairs"
  then have "k \<notin> fst ` set (normalize (dict_of pairs))"
    by (simp add: normalize_key_set dict_of_keys)
  then have "map_of (normalize (dict_of pairs)) k = None"
    by (simp add: map_of_eq_None_iff)
  then show ?thesis by (simp add: dict_get_def)
qed

lemma two_element_orders:
  assumes "distinct xs" and "set xs = {a, b}" and "a \<noteq> b"
  shows "xs = [a, b] \<or> xs = [b, a]"
proof -
  have "length xs = 2"
    using assms distinct_card[OF assms(1)] by simp
  then obtain x y where xs: "xs = [x, y]"
    by (cases xs; cases "tl xs") (auto simp: Suc_length_conv)
  then show ?thesis using assms by (auto simp: doubleton_eq_iff)
qed

text \<open>
  C8. The blending step gives one item to every product id of the union of the two
  score lists (whatever order the set is iterated in), each with
  \<open>final = cbf_weight * cbf_score + cf_weight * cf_score\<close> over the normalized scores,
  where an id that a list does not mention scores 0 for that list. On collaborative
  scores \<open>{A: 0.8, B: 0.4}\<close>, content scores \<open>{A: 0.2, B: 1.0}\<close> and weights
  collaborative 0.6, content 0.4 the result is \<open>[B, A]\<close> with finals 0.70 and 0.68.
\<close>

theorem combine_scores_blends_over_union:
  "(lists_once iter (map fst (dict_of cbf_recs) @ map fst (dict_of cf_recs)) \<longrightarrow>
      set (map product_id (combine_scores iter cbf_recs cf_recs cbf_weight cf_weight))
        = fst ` set cbf_recs \<union> fst ` set cf_recs \<and>
      distinct (map product_id (combine_scores iter cbf_recs cf_recs cbf_weight cf_weight))) \<and>
   (\<forall>r \<in> set (combine_scores iter cbf_recs cf_recs cbf_weight cf_weight).
      origin r = Blend (dict_get (normalize (dict_of cbf_recs)) (product_id r) 0)
                       (dict_get (normalize (dict_of cf_recs)) (product_id r) 0) \<and>
      score r = cbf_weight * dict_get (normalize (dict_of cbf_recs)) (product_id r) 0
              + cf_weight * dict_get (normalize (dict_of cf_recs)) (product_id r) 0) \<and>
   (pid \<notin> fst ` set cbf_recs \<longrightarrow> dict_get (normalize (dict_of cbf_recs)) pid 0 = 0) \<and>
   (pid \<notin> fst ` set cf_recs \<longrightarrow> dict_get (normalize (dict_of cf_recs)) pid 0 = 0) \<and>
   (lists_once iter [''A'', ''B'', ''A'', ''B''] \<longrightarrow>
      combine_scores iter [(''A'', 2 / 10), (''B'', 1)] [(''A'', 8 / 10), (''B'', 4 / 10)]
          (4 / 10) (6 / 10)
        = [\<lparr>product_id = ''B'', score = 70 / 100, origin = Blend 1 (1 / 2)\<rparr>,
           \<lparr>product_id = ''A'', score = 68 / 100, origin = Blend (2 / 10) 1\<rparr>])"
proof (intro conjI impI ballI)
  assume l: "lists_once iter (map fst (dict_of cbf_recs) @ map fst (dict_of cf_recs))"
  let ?ks = "map fst (dict_of cbf_recs) @ map fst (dict_of cf_recs)"
  have m: "mset (map product_id (combine_scores iter cbf_recs cf_recs cbf_weight cf_weight)) = mset (iter ?ks)"
    by (rule combine_scores_id_mset)
  have "set (map product_id (combine_scores iter cbf_recs cf_recs cbf_weight cf_weight)) = set (iter ?ks)"
    using m by (rule mset_eq_setD)
  also have "\<dots> = fst ` set cbf_recs \<union> fst ` set cf_recs"
    using l dict_of_keys[of cbf_recs] dict_of_keys[of cf_recs] by (simp add: lists_once_def image_Un)
  finally show "set (map product_id (combine_scores iter cbf_recs cf_recs cbf_weight cf_weight))
        = fst ` set cbf_recs \<union> fst ` set cf_recs" .
  show "distinct (map product_id (combine_scores iter cbf_recs cf_recs cbf_weight cf_weight))"
    using m l by (metis lists_once_def mset_eq_imp_distinct_iff)
next
  fix r assume "r \<in> set (combine_scores iter cbf_recs cf_recs cbf_weight cf_weight)"
  from combine_scores_member[OF this]
  show "origin r = Blend (dict_get (normalize (dict_of cbf_recs)) (product_id r) 0)
                       (dict_get (normalize (dict_of cf_recs)) (product_id r) 0)"
    and "score r = cbf_weight * dict_get (normalize (dict_of cbf_recs)) (product_id r) 0
              + cf_weight * dict_get (normalize (dict_of cf_recs)) (product_id r) 0"
    by simp_all
next
  assume "pid \<notin> fst ` set cbf_recs"
  then show "dict_get (normalize (dict_of cbf_recs)) pid 0 = 0" by (rule dict_get_absent)
next
  assume "pid \<notin> fst ` set cf_recs"
  then show "dict_get (normalize (dict_of cf_recs)) pid 0 = 0" by (rule dict_get_absent)
next
  assume "lists_once iter [''A'', ''B'', ''A'', ''B'']"
  then have "distinct (iter [''A'', ''B'', ''A'', ''B''])"
    and "set (iter [''A'', ''B'', ''A'', ''B'']) = {''A'', ''B''}"
    by (auto simp: lists_once_def)
  then have o: "iter [''A'', ''B'', ''A'', ''B''] = [''A'', ''B''] \<or>
                iter [''A'', ''B'', ''A'', ''B''] = [''B'', ''A'']"
    by (intro two_element_orders) auto
  from o show "combine_scores iter [(''A'', 2 / 10), (''B'', 1)] [(''A'', 8 / 10), (''B'', 4 / 10)]
          (4 / 10) (6 / 10)
        = [\<lparr>product_id = ''B'', score = 70 / 100, origin = Blend 1 (1 / 2)\<rparr>,
           \<lparr>product_id = ''A'', score = 68 / 100, origin = Blend (2 / 10) 1\<rparr>]"
    by (auto simp: combine_scores_def Let_def dict_of_def normalize_def dict_get_def
          sort_reverse_def)
qed


lemma lists_once_remdups: "lists_once remdups ks"
  by (simp add: lists_once_def)

lemma example_blend:
  "combine_scores remdups [(''A'', 2 / 10), (''B'', 1)] [(''A'', 8 / 10), (''B'', 4 / 10)]
       (4 / 10) (6 / 10)
     = [\<lparr>product_id = ''B'', score = 70 / 100, origin = Blend 1 (1 / 2)\<rparr>,
        \<lparr>product_id = ''A'', score = 68 / 100, origin = Blend (2 / 10) 1\<rparr>]"
  by (simp add: combine_scores_def Let_def dict_of_def normalize_def dict_get_def
        sort_reverse_def)

theorem combine_scores_blends_over_union_witness:
  "lists_once remdups (map fst (dict_of [(''A'', 2 / 10), (''B'', 1)])
                       @ map fst (dict_of [(''A'', 8 / 10), (''B'', 4 / 10)])) \<and>
   lists_once remdups [''A'', ''B'', ''A'', ''B''] \<and>
   ''C'' \<notin> fst ` set [(''A'', 2 / 10 :: real), (''B'', 1)] \<and>
   set (map product_id (combine_scores remdups [(''A'', 2 / 10), (''B'', 1)]
          [(''A'', 8 / 10), (''B'', 4 / 10)] (4 / 10) (6 / 10)))
     = fst ` set [(''A'', 2 / 10 :: real), (''B'', 1)] \<union> fst ` set [(''A'', 8 / 10 :: real), (''B'', 4 / 10)] \<and>
   \<lparr>product_id = ''B'', score = 70 / 100, origin = Blend 1 (1 / 2)\<rparr>
     \<in> set (combine_scores remdups [(''A'', 2 / 10), (''B'', 1)]
          [(''A'', 8 / 10), (''B'', 4 / 10)] (4 / 10) (6 / 10)) \<and>
   dict_get (normalize (dict_of [(''A'', 2 / 10), (''B'', 1)])) ''C'' 0 = 0 \<and>
   combine_scores remdups [(''A'', 2 / 10), (''B'', 1)] [(''A'', 8 / 10), (''B'', 4 / 10)]
       (4 / 10) (6 / 10)
     = [\<lparr>product_id = ''B'', score = 70 / 100, origin = Blend 1 (1 / 2)\<rparr>,
        \<lparr>product_id = ''A'', score = 68 / 100, origin = Blend (2 / 10) 1\<rparr>]"
proof -
  have h1: "lists_once remdups (map fst (dict_of [(''A'', 2 / 10), (''B'', 1)])
                       @ map fst (dict_of [(''A'', 8 / 10), (''B'', 4 / 10)]))"
    by (rule lists_once_remdups)
  have h2: "lists_once remdups [''A'', ''B'', ''A'', ''B'']"
    by (rule lists_once_remdups)
  have h3: "''C'' \<notin> fst ` set [(''A'', 2 / 10 :: real), (''B'', 1)]"
    by simp
  note T = combine_scores_blends_over_union
          [of remdups "[(''A'', 2 / 10), (''B'', 1)]" "[(''A'', 8 / 10), (''B'', 4 / 10)]"
              "4 / 10" "6 / 10" "''C''"]
  have m: "\<lparr>product_id = ''B'', score = 70 / 100, origin = Blend 1 (1 / 2)\<rparr>
     \<in> set (combine_scores remdups [(''A'', 2 / 10), (''B'', 1)]
          [(''A'', 8 / 10), (''B'', 4 / 10)] (4 / 10) (6 / 10))"
    unfolding example_blend by simp
  show ?thesis
    using h1 h2 h3 m T by blast
qed

text \<open>
  C7. Normalization divides every score of a dict by that dict's own maximum when the
  maximum is positive, and leaves the dict as it is when the maximum is 0; a dict whose
  maximum is 1 comes back unchanged, and normalizing twice is normalizing once. In the
  blending step the content component of an item comes from the normalized content dict
  alone and the collaborative component from the normalized collaborative dict alone.
\<close>

theorem normalize_by_own_maximum:
  "(d \<noteq> [] \<and> 0 < Max (snd ` set d) \<longrightarrow>
      normalize d = map (\<lambda>(k, v). (k, v / Max (snd ` set d))) d) \<and>
   (d \<noteq> [] \<and> Max (snd ` set d) = 0 \<longrightarrow> normalize d = d) \<and>
   (d \<noteq> [] \<and> Max (snd ` set d) = 1 \<longrightarrow> normalize d = d) \<and>
   normalize [] = [] \<and>
   normalize (normalize d) = normalize d \<and>
   (\<forall>r \<in> set (combine_scores iter cbf_recs cf_recs cbf_weight cf_weight).
      origin r = Blend (dict_get (normalize (dict_of cbf_recs)) (product_id r) 0)
                       (dict_get (normalize (dict_of cf_recs)) (product_id r) 0))"
proof (intro conjI impI ballI)
  assume a: "d \<noteq> [] \<and> 0 < Max (snd ` set d)"
  then have "normalize d =
      map (\<lambda>(k, v). (k, if 0 < Max (snd ` set d) then v / Max (snd ` set d) else v)) d"
    by (simp add: normalize_nonempty)
  also have "\<dots> = map (\<lambda>(k, v). (k, v / Max (snd ` set d))) d"
    using a by simp
  finally show "normalize d = map (\<lambda>(k, v). (k, v / Max (snd ` set d))) d" .
next
  assume "d \<noteq> [] \<and> Max (snd ` set d) = 0"
  then show "normalize d = d" by (simp add: normalize_unchanged)
next
  assume "d \<noteq> [] \<and> Max (snd ` set d) = 1"
  then show "normalize d = d" by (simp add: normalize_unchanged)
next
  show "normalize [] = []" by (rule normalize_Nil)
  show "normalize (normalize d) = normalize d" by (rule normalize_idem)
next
  fix r assume "r \<in> set (combine_scores iter cbf_recs cf_recs cbf_weight cf_weight)"
  then show "origin r = Blend (dict_get (normalize (dict_of cbf_recs)) (product_id r) 0)
                       (dict_get (normalize (dict_of cf_recs)) (product_id r) 0)"
    using combine_scores_member by blast
qed

theorem normalize_by_own_maximum_witness:
  "[(''A'', 8 / 10 :: real), (''B'', 4 / 10)] \<noteq> [] \<and>
   0 < Max (snd ` set [(''A'', 8 / 10 :: real), (''B'', 4 / 10)]) \<and>
   normalize [(''A'', 8 / 10), (''B'', 4 / 10)]
     = map (\<lambda>(k, v). (k, v / Max (snd ` set [(''A'', 8 / 10 :: real), (''B'', 4 / 10)])))
         [(''A'', 8 / 10), (''B'', 4 / 10)] \<and>
   normalize [(''A'', 8 / 10), (''B'', 4 / 10)] = [(''A'', 1), (''B'', 1 / 2)] \<and>
   Max (snd ` set [(''A'', 0 :: real), (''B'', - 3)]) = 0 \<and>
   normalize [(''A'', 0), (''B'', - 3)] = [(''A'', 0), (''B'', - 3)] \<and>
   Max (snd ` set [(''A'', 2 / 10 :: real), (''B'', 1)]) = 1 \<and>
   normalize [(''A'', 2 / 10), (''B'', 1)] = [(''A'', 2 / 10), (''B'', 1)] \<and>
   \<lparr>product_id = ''A'', score = 68 / 100, origin = Blend (2 / 10) 1\<rparr>
     \<in> set (combine_scores remdups [(''A'', 2 / 10), (''B'', 1)]
          [(''A'', 8 / 10), (''B'', 4 / 10)] (4 / 10) (6 / 10))"
proof -
  have m1: "Max (snd ` set [(''A'', 8 / 10 :: real), (''B'', 4 / 10)]) = 8 / 10"
    by simp
  have m2: "Max (snd ` set [(''A'', 0 :: real), (''B'', - 3)]) = 0"
    by simp
  have m3: "Max (snd ` set [(''A'', 2 / 10 :: real), (''B'', 1)]) = 1"
    by simp
  have n1: "normalize [(''A'', 8 / 10), (''B'', 4 / 10)] = [(''A'', 1), (''B'', 1 / 2)]"
    by (simp add: normalize_def)
  have e: "\<lparr>product_id = ''A'', score = 68 / 100, origin = Blend (2 / 10) 1\<rparr>
     \<in> set (combine_scores remdups [(''A'', 2 / 10), (''B'', 1)]
          [(''A'', 8 / 10), (''B'', 4 / 10)] (4 / 10) (6 / 10))"
    unfolding example_blend by simp
  note T1 = normalize_by_own_maximum
          [of "[(''A'', 8 / 10), (''B'', 4 / 10)]" remdups "[(''A'', 2 / 10), (''B'', 1)]"
              "[(''A'', 8 / 10), (''B'', 4 / 10)]" "4 / 10" "6 / 10"]
  note T2 = normalize_by_own_maximum
          [of "[(''A'', 0), (''B'', - 3)]" remdups "[(''A'', 2 / 10), (''B'', 1)]"
              "[(''A'', 8 / 10), (''B'', 4 / 10)]" "4 / 10" "6 / 10"]
  note T3 = normalize_by_own_maximum
          [of "[(''A'', 2 / 10), (''B'', 1)]" remdups "[(''A'', 2 / 10), (''B'', 1)]"
              "[(''A'', 8 / 10), (''B'', 4 / 10)]" "4 / 10" "6 / 10"]
  have p: "0 < Max (snd ` set [(''A'', 8 / 10 :: real), (''B'', 4 / 10)])"
    unfolding m1 by simp
  have ne: "[(''A'', 8 / 10 :: real), (''B'', 4 / 10)] \<noteq> []"
    by simp
  have c1: "normalize [(''A'', 8 / 10), (''B'', 4 / 10)]
     = map (\<lambda>(k, v). (k, v / Max (snd ` set [(''A'', 8 / 10 :: real), (''B'', 4 / 10)])))
         [(''A'', 8 / 10), (''B'', 4 / 10)]"
    using T1 p ne by blast
  have c2: "normalize [(''A'', 0), (''B'', - 3)] = [(''A'', 0), (''B'', - 3)]"
    using T2 m2 by blast
  have c3: "normalize [(''A'', 2 / 10), (''B'', 1)] = [(''A'', 2 / 10), (''B'', 1)]"
    using T3 m3 by blast
  show ?thesis using c1 c2 c3 m2 m3 n1 e p ne by blast
qed

lemma normalize_map_of_perm:
  assumes "distinct (map fst d)" and "mset d' = mset d"
  shows "map_of (normalize d') = map_of (normalize d)"
proof (cases "d = []")
  case True
  then show ?thesis using assms(2) by simp
next
  case False
  have s: "set d' = set d" using assms(2) by (rule mset_eq_setD)
  have ne: "d' \<noteq> []" using False s by auto
  have dd: "distinct (map fst d')"
    using assms by (metis mset_eq_imp_distinct_iff mset_map)
  let ?g = "\<lambda>(k, v). (k, if 0 < Max (snd ` set d) then v / Max (snd ` set d) else v)"
  have n: "normalize d = map ?g d"
    by (rule normalize_nonempty[OF False])
  have n': "normalize d' = map ?g d'"
    using normalize_nonempty[OF ne] unfolding s .
  have "distinct (map fst (normalize d))" "distinct (map fst (normalize d'))"
    using assms(1) dd by (simp_all add: normalize_keys)
  moreover have "set (normalize d') = set (normalize d)"
    unfolding n n' using s by simp
  ultimately show ?thesis
    by (simp add: map_of_inject_set)
qed

lemma dict_get_perm:
  assumes "distinct (map fst d)" and "mset d' = mset d"
  shows "dict_get (normalize (dict_of d')) p 0 = dict_get (normalize (dict_of d)) p 0"
proof -
  have dd: "distinct (map fst d')"
    using assms by (metis mset_eq_imp_distinct_iff mset_map)
  show ?thesis
    using normalize_map_of_perm[OF assms] assms(1) dd
    by (simp add: dict_get_def dict_of_distinct_id)
qed

text \<open>
  C2 (as the code has it). The blending step consults no catalog: it sorts the items of
  the id set by final score, highest first, with a stable sort, so items with equal
  final scores come out in the order in which the Python set of ids is iterated. For
  score lists that mention no id twice, permuting the lists changes neither the items nor
  any score; the output is sorted by final score; the items of one final score follow
  the set's iteration order; and the output list is the same whenever the set is
  iterated in the same order or all final scores differ.
\<close>

theorem combine_scores_permutation:
  assumes "distinct (map fst cbf_recs)" and "distinct (map fst cf_recs)"
    and "mset cbf_recs' = mset cbf_recs" and "mset cf_recs' = mset cf_recs"
    and "lists_once iter (map fst cbf_recs @ map fst cf_recs)"
    and "lists_once iter (map fst cbf_recs' @ map fst cf_recs')"
  shows "mset (combine_scores iter cbf_recs' cf_recs' cbf_weight cf_weight)
           = mset (combine_scores iter cbf_recs cf_recs cbf_weight cf_weight) \<and>
         sorted_wrt (\<lambda>a b. score b \<le> score a)
           (combine_scores iter cbf_recs' cf_recs' cbf_weight cf_weight) \<and>
         map product_id
             (filter (\<lambda>r. score r = s) (combine_scores iter cbf_recs' cf_recs' cbf_weight cf_weight))
           = filter (\<lambda>p. cbf_weight * dict_get (normalize (dict_of cbf_recs)) p 0
                         + cf_weight * dict_get (normalize (dict_of cf_recs)) p 0 = s)
               (iter (map fst cbf_recs' @ map fst cf_recs')) \<and>
         (iter (map fst cbf_recs' @ map fst cf_recs') = iter (map fst cbf_recs @ map fst cf_recs) \<longrightarrow>
            combine_scores iter cbf_recs' cf_recs' cbf_weight cf_weight
              = combine_scores iter cbf_recs cf_recs cbf_weight cf_weight) \<and>
         (inj_on score (set (combine_scores iter cbf_recs cf_recs cbf_weight cf_weight)) \<longrightarrow>
            combine_scores iter cbf_recs' cf_recs' cbf_weight cf_weight
              = combine_scores iter cbf_recs cf_recs cbf_weight cf_weight)"
proof -
  define mk where "mk = (\<lambda>pid. \<lparr>product_id = pid,
                    score = cbf_weight * dict_get (normalize (dict_of cbf_recs)) pid 0
                          + cf_weight * dict_get (normalize (dict_of cf_recs)) pid 0,
                    origin = Blend (dict_get (normalize (dict_of cbf_recs)) pid 0)
                                   (dict_get (normalize (dict_of cf_recs)) pid 0)\<rparr>)"
  define ks where "ks = map fst cbf_recs @ map fst cf_recs"
  define ks' where "ks' = map fst cbf_recs' @ map fst cf_recs'"
  have d1: "distinct (map fst cbf_recs')"
    using assms(1,3) by (metis mset_eq_imp_distinct_iff mset_map)
  have d2: "distinct (map fst cf_recs')"
    using assms(2,4) by (metis mset_eq_imp_distinct_iff mset_map)
  have g1: "\<And>p. dict_get (normalize (dict_of cbf_recs')) p 0 = dict_get (normalize (dict_of cbf_recs)) p 0"
    using dict_get_perm[OF assms(1,3)] .
  have g2: "\<And>p. dict_get (normalize (dict_of cf_recs')) p 0 = dict_get (normalize (dict_of cf_recs)) p 0"
    using dict_get_perm[OF assms(2,4)] .
  have c: "combine_scores iter cbf_recs cf_recs cbf_weight cf_weight = sort_reverse score (map mk (iter ks))"
    unfolding combine_scores_eq mk_def ks_def
    using assms(1,2) by (simp add: dict_of_distinct_id)
  have c': "combine_scores iter cbf_recs' cf_recs' cbf_weight cf_weight = sort_reverse score (map mk (iter ks'))"
    unfolding combine_scores_eq mk_def ks'_def g1 g2
    using d1 d2 by (simp add: dict_of_distinct_id)
  have "set ks' = set ks"
    unfolding ks_def ks'_def
    using mset_eq_setD[OF assms(3)] mset_eq_setD[OF assms(4)] by simp
  then have mi: "mset (iter ks') = mset (iter ks)"
    using assms(5,6) unfolding ks_def[symmetric] ks'_def[symmetric] lists_once_def
    by (metis set_eq_iff_mset_eq_distinct)
  have m: "mset (map mk (iter ks')) = mset (map mk (iter ks))"
    using mi by (metis mset_map)
  have 1: "mset (combine_scores iter cbf_recs' cf_recs' cbf_weight cf_weight)
           = mset (combine_scores iter cbf_recs cf_recs cbf_weight cf_weight)"
    unfolding c c' sort_reverse_mset by (rule m)
  have 2: "sorted_wrt (\<lambda>a b. score b \<le> score a)
           (combine_scores iter cbf_recs' cf_recs' cbf_weight cf_weight)"
    unfolding c' by (rule sort_reverse_sorted)
  have "map product_id (filter (\<lambda>r. score r = s) (map mk (iter ks')))
          = filter (\<lambda>p. score (mk p) = s) (iter ks')"
    by (simp add: filter_map comp_def mk_def)
  then have 3: "map product_id
             (filter (\<lambda>r. score r = s) (combine_scores iter cbf_recs' cf_recs' cbf_weight cf_weight))
           = filter (\<lambda>p. cbf_weight * dict_get (normalize (dict_of cbf_recs)) p 0
                         + cf_weight * dict_get (normalize (dict_of cf_recs)) p 0 = s)
               (iter (map fst cbf_recs' @ map fst cf_recs'))"
    unfolding c' sort_reverse_stable ks'_def by (simp add: mk_def)
  have 4: "iter (map fst cbf_recs' @ map fst cf_recs') = iter (map fst cbf_recs @ map fst cf_recs) \<longrightarrow>
            combine_scores iter cbf_recs' cf_recs' cbf_weight cf_weight
              = combine_scores iter cbf_recs cf_recs cbf_weight cf_weight"
    unfolding c c' ks_def ks'_def by simp
  have 5: "inj_on score (set (combine_scores iter cbf_recs cf_recs cbf_weight cf_weight)) \<longrightarrow>
            combine_scores iter cbf_recs' cf_recs' cbf_weight cf_weight
              = combine_scores iter cbf_recs cf_recs cbf_weight cf_weight"
  proof
    assume "inj_on score (set (combine_scores iter cbf_recs cf_recs cbf_weight cf_weight))"
    then have "inj_on score (set (map mk (iter ks)))"
      unfolding c sort_reverse_set .
    from sort_reverse_unique[OF m[symmetric] this]
    show "combine_scores iter cbf_recs' cf_recs' cbf_weight cf_weight
              = combine_scores iter cbf_recs cf_recs cbf_weight cf_weight"
      unfolding c c' by simp
  qed
  show ?thesis using 1 2 3 4 5 by blast
qed

text \<open>
  With two items of equal final score the output follows the iteration order of the id
  set, whichever way round the ids stand in a catalog, and under first-seen iteration it
  follows the order in which the scores were supplied. When a list mentions an id twice,
  \<^verbatim>\<open>dict\<close> keeps the score supplied last, so a permutation changes the scores and
  with them the order.
\<close>

theorem combine_scores_tie_order_counterexample:
  "lists_once remdups [''A'', ''B''] \<and> lists_once (\<lambda>ks. rev (remdups ks)) [''A'', ''B''] \<and>
   map product_id (combine_scores remdups [(''A'', 1), (''B'', 1)] [] 1 0) = [''A'', ''B''] \<and>
   map product_id (combine_scores (\<lambda>ks. rev (remdups ks)) [(''A'', 1), (''B'', 1)] [] 1 0)
     = [''B'', ''A''] \<and>
   map product_id (combine_scores remdups [(''B'', 1), (''A'', 1)] [] 1 0) = [''B'', ''A''] \<and>
   map product_id (combine_scores remdups [(''A'', 4), (''B'', 2), (''A'', 1)] [] 1 0)
     = [''B'', ''A''] \<and>
   map product_id (combine_scores remdups [(''A'', 1), (''B'', 2), (''A'', 4)] [] 1 0)
     = [''A'', ''B'']"
  by (simp add: lists_once_def combine_scores_def Let_def dict_of_def normalize_def dict_get_def
        sort_reverse_def insert_commute)


theorem combine_scores_permutation_witness:
  "distinct (map fst [(''A'', 2 / 10 :: real), (''B'', 1)]) \<and>
   distinct (map fst [(''A'', 8 / 10 :: real), (''B'', 4 / 10)]) \<and>
   mset [(''B'', 1 :: real), (''A'', 2 / 10)] = mset [(''A'', 2 / 10), (''B'', 1)] \<and>
   mset [(''B'', 4 / 10 :: real), (''A'', 8 / 10)] = mset [(''A'', 8 / 10), (''B'', 4 / 10)] \<and>
   lists_once remdups (map fst [(''A'', 2 / 10 :: real), (''B'', 1)]
                        @ map fst [(''A'', 8 / 10 :: real), (''B'', 4 / 10)]) \<and>
   lists_once remdups (map fst [(''B'', 1 :: real), (''A'', 2 / 10)]
                        @ map fst [(''B'', 4 / 10 :: real), (''A'', 8 / 10)]) \<and>
   inj_on score (set (combine_scores remdups [(''A'', 2 / 10), (''B'', 1)]
                        [(''A'', 8 / 10), (''B'', 4 / 10)] (4 / 10) (6 / 10))) \<and>
   combine_scores remdups [(''B'', 1), (''A'', 2 / 10)] [(''B'', 4 / 10), (''A'', 8 / 10)]
       (4 / 10) (6 / 10)
     = combine_scores remdups [(''A'', 2 / 10), (''B'', 1)] [(''A'', 8 / 10), (''B'', 4 / 10)]
       (4 / 10) (6 / 10) \<and>
   lists_once (\<lambda>ks. filter (\<lambda>k. k \<in> set ks) [''A'', ''B''])
      (map fst [(''A'', 1 :: real), (''B'', 1)] @ map fst ([] :: (string \<times> real) list)) \<and>
   lists_once (\<lambda>ks. filter (\<lambda>k. k \<in> set ks) [''A'', ''B''])
      (map fst [(''B'', 1 :: real), (''A'', 1)] @ map fst ([] :: (string \<times> real) list)) \<and>
   (\<lambda>ks. filter (\<lambda>k. k \<in> set ks) [''A'', ''B''])
      (map fst [(''B'', 1 :: real), (''A'', 1)] @ map fst ([] :: (string \<times> real) list))
     = (\<lambda>ks. filter (\<lambda>k. k \<in> set ks) [''A'', ''B''])
      (map fst [(''A'', 1 :: real), (''B'', 1)] @ map fst ([] :: (string \<times> real) list)) \<and>
   combine_scores (\<lambda>ks. filter (\<lambda>k. k \<in> set ks) [''A'', ''B'']) [(''B'', 1), (''A'', 1)] [] 1 0
     = combine_scores (\<lambda>ks. filter (\<lambda>k. k \<in> set ks) [''A'', ''B'']) [(''A'', 1), (''B'', 1)] [] 1 0"
proof -
  have h1: "distinct (map fst [(''A'', 2 / 10 :: real), (''B'', 1)])"
    and h2: "distinct (map fst [(''A'', 8 / 10 :: real), (''B'', 4 / 10)])"
    and h3: "mset [(''B'', 1 :: real), (''A'', 2 / 10)] = mset [(''A'', 2 / 10), (''B'', 1)]"
    and h4: "mset [(''B'', 4 / 10 :: real), (''A'', 8 / 10)] = mset [(''A'', 8 / 10), (''B'', 4 / 10)]"
    by simp_all
  have h5: "lists_once remdups (map fst [(''A'', 2 / 10 :: real), (''B'', 1)]
                        @ map fst [(''A'', 8 / 10 :: real), (''B'', 4 / 10)])"
    and h6: "lists_once remdups (map fst [(''B'', 1 :: real), (''A'', 2 / 10)]
                        @ map fst [(''B'', 4 / 10 :: real), (''A'', 8 / 10)])"
    by (rule lists_once_remdups)+
  have i: "inj_on score (set (combine_scores remdups [(''A'', 2 / 10), (''B'', 1)]
                        [(''A'', 8 / 10), (''B'', 4 / 10)] (4 / 10) (6 / 10)))"
    unfolding example_blend by simp
  have c1: "combine_scores remdups [(''B'', 1), (''A'', 2 / 10)] [(''B'', 4 / 10), (''A'', 8 / 10)]
       (4 / 10) (6 / 10)
     = combine_scores remdups [(''A'', 2 / 10), (''B'', 1)] [(''A'', 8 / 10), (''B'', 4 / 10)]
       (4 / 10) (6 / 10)"
    using combine_scores_permutation[OF h1 h2 h3 h4 h5 h6, of "4 / 10" "6 / 10" 0] i by blast
  let ?it = "\<lambda>ks. filter (\<lambda>k. k \<in> set ks) [''A'', ''B'']"
  have k1: "distinct (map fst [(''A'', 1 :: real), (''B'', 1)])"
    and k2: "distinct (map fst ([] :: (string \<times> real) list))"
    and k3: "mset [(''B'', 1 :: real), (''A'', 1)] = mset [(''A'', 1), (''B'', 1)]"
    and k4: "mset ([] :: (string \<times> real) list) = mset []"
    by simp_all
  have k5: "lists_once ?it (map fst [(''A'', 1 :: real), (''B'', 1)] @ map fst ([] :: (string \<times> real) list))"
    and k6: "lists_once ?it (map fst [(''B'', 1 :: real), (''A'', 1)] @ map fst ([] :: (string \<times> real) list))"
    by (auto simp: lists_once_def)
  have e: "?it (map fst [(''B'', 1 :: real), (''A'', 1)] @ map fst ([] :: (string \<times> real) list))
     = ?it (map fst [(''A'', 1 :: real), (''B'', 1)] @ map fst ([] :: (string \<times> real) list))"
    by simp
  have c2: "combine_scores ?it [(''B'', 1), (''A'', 1)] [] 1 0
     = combine_scores ?it [(''A'', 1), (''B'', 1)] [] 1 0"
    using combine_scores_permutation[OF k1 k2 k3 k4 k5 k6, of 1 0 0] e by blast
  show ?thesis
    using h1 h2 h3 h4 h5 h6 i c1 k5 k6 e c2 by blast
qed

section \<open>Properties of the recommender\<close>

lemma slice_to_subset: "set (slice_to k xs) \<subseteq> set xs"
  by (auto simp: slice_to_def dest: in_set_takeD)

lemma slice_to_length: "0 \<le> k \<Longrightarrow> int (length (slice_to k xs)) \<le> k"
  by (simp add: slice_to_def)

lemma slice_to_short: "int (length xs) \<le> k \<Longrightarrow> slice_to k xs = xs"
  by (simp add: slice_to_def)

lemma nlargest_length: "int (length (nlargest k rows)) \<le> max k 0"
  by (simp add: nlargest_def)

lemma nlargest_subset: "set (nlargest k rows) \<subseteq> set rows"
  by (auto simp: nlargest_def sort_reverse_def dest: in_set_takeD)

lemma nlargest_sorted:
  "sorted_wrt (\<lambda>a b. popularity_score b \<le> popularity_score a) (nlargest k rows)"
  unfolding nlargest_def by (intro sorted_wrt_take sort_reverse_sorted)

lemma slice_nlargest: "slice_to k (map f (nlargest k rows)) = map f (nlargest k rows)"
proof (cases "0 \<le> k")
  case True
  then show ?thesis using nlargest_length[of k rows] by (intro slice_to_short) simp
next
  case False
  then show ?thesis by (simp add: nlargest_def slice_to_def)
qed

lemma enrich_cong:
  "products_df h' = products_df h \<Longrightarrow> enrich_recommendations h' recs = enrich_recommendations h recs"
  by (induction recs) (simp_all split: list.splits)

lemma enrich_ids:
  "map product_id (enrich_recommendations h recs) =
     filter (\<lambda>p. p \<in> stock_code ` set (products_df h)) (map product_id recs)"
proof (induction recs)
  case Nil
  then show ?case by simp
next
  case (Cons r recs)
  show ?case
  proof (cases "filter (\<lambda>row. stock_code row = product_id r) (products_df h)")
    case Nil
    then have "product_id r \<notin> stock_code ` set (products_df h)"
      by (auto simp: filter_empty_conv)
    then show ?thesis using Nil Cons.IH by simp
  next
    case (Cons row rows)
    then have "row \<in> set (filter (\<lambda>row. stock_code row = product_id r) (products_df h))"
      by simp
    then have "product_id r \<in> stock_code ` set (products_df h)"
      by force
    then show ?thesis using Cons Cons.IH by simp
  qed
qed

lemma enrich_length: "length (enrich_recommendations h recs) \<le> length recs"
  by (induction recs) (auto split: list.splits)

lemma enrich_member:
  "e \<in> set (enrich_recommendations h recs) \<Longrightarrow>
     \<exists>r \<in> set recs. product_id e = product_id r \<and> score e = score r \<and> origin e = origin r"
  by (induction recs) (auto split: list.splits)

lemma enrich_all_found:
  assumes "\<forall>r \<in> set recs. product_id r \<in> stock_code ` set (products_df h)"
  shows "map product_id (enrich_recommendations h recs) = map product_id recs \<and>
         map score (enrich_recommendations h recs) = map score recs \<and>
         map origin (enrich_recommendations h recs) = map origin recs"
  using assms
proof (induction recs)
  case Nil
  then show ?case by simp
next
  case (Cons r recs)
  then have "product_id r \<in> stock_code ` set (products_df h)" by simp
  then obtain row where "row \<in> set (products_df h)" "stock_code row = product_id r" by auto
  then have "filter (\<lambda>row. stock_code row = product_id r) (products_df h) \<noteq> []"
    by (auto simp: filter_empty_conv)
  then obtain p ps where "filter (\<lambda>row. stock_code row = product_id r) (products_df h) = p # ps"
    by (cases "filter (\<lambda>row. stock_code row = product_id r) (products_df h)") auto
  then show ?case using Cons by simp
qed

lemma add_method_fields [simp]:
  "product_id (add_method m r) = product_id r"
  "score (add_method m r) = score r"
  "origin (add_method m r) = origin r"
  "rec_method (add_method m r) = m"
  by (simp_all add: add_method_def)

lemma recommend_cold:
  assumes "get_user_purchase_history h user_id = []"
  shows "recommend iter h user_id top_k exclude_purchased =
           ([], Inr (map (add_method ''cold_start'')
                      (enrich_recommendations h
                         (cold_start_recommend h (map stock_code (products_df h)) top_k))))"
  using assms
  by (simp add: recommend_def Let_def cold_start_recommend_def slice_nlargest)

lemma recommend_warm:
  assumes "get_user_purchase_history h user_id \<noteq> []"
    and "int (length (get_user_purchase_history h user_id)) < min_purchases_for_cf h"
  shows "recommend iter h user_id top_k exclude_purchased =
           (case warm_start_recommend iter h user_id (get_user_purchase_history h user_id)
                   (map stock_code (products_df h)) top_k of
              (calls, Inl e) \<Rightarrow> (calls, Inl e)
            | (calls, Inr recs) \<Rightarrow>
                (calls, Inr (map (add_method ''warm_start'')
                   (enrich_recommendations h
                      (slice_to top_k
                         (if exclude_purchased
                          then filter (\<lambda>r. product_id r \<notin> set (get_user_purchase_history h user_id)) recs
                          else recs))))))"
  using assms
  by (simp add: recommend_def Let_def split: prod.splits sum.splits)

lemma recommend_hybrid:
  assumes "min_purchases_for_cf h \<le> int (length (get_user_purchase_history h user_id))"
    and "get_user_purchase_history h user_id \<noteq> []"
  shows "recommend iter h user_id top_k exclude_purchased =
           (case hybrid_recommend iter h user_id (get_user_purchase_history h user_id)
                   (map stock_code (products_df h)) top_k of
              (calls, Inl e) \<Rightarrow> (calls, Inl e)
            | (calls, Inr recs) \<Rightarrow>
                (calls, Inr (map (add_method ''hybrid'')
                   (enrich_recommendations h
                      (slice_to top_k
                         (if exclude_purchased
                          then filter (\<lambda>r. product_id r \<notin> set (get_user_purchase_history h user_id)) recs
                          else recs))))))"
  using assms
  by (simp add: recommend_def Let_def split: prod.splits sum.splits)

text \<open>Every list \<^verbatim>\<open>recommend\<close> returns is the enrichment of a truncated, filtered list.\<close>

lemma recommend_shape:
  assumes "snd (recommend iter h user_id top_k exclude_purchased) = Inr recs"
  shows "\<exists>found m. recs = map (add_method m)
            (enrich_recommendations h
               (slice_to top_k
                  (if exclude_purchased
                   then filter (\<lambda>r. product_id r \<notin> set (get_user_purchase_history h user_id)) found
                   else found)))"
  using assms
  by (auto simp: recommend_def Let_def split: prod.splits sum.splits if_splits)


section \<open>The example shop, evaluated\<close>

lemmas example_defs =
  shop_def shop_untrained_def stale_def shop_cf_def shop_cbf_def shop_catalog_def
  shop_matrix_def item_def

lemmas engine_defs =
  recommend_def warm_start_recommend_def hybrid_recommend_def cold_start_recommend_def
  combine_scores_def normalize_def dict_of_def dict_get_def recommend_for_user_def
  predict_for_user_def get_popular_products_def get_user_purchase_history_def
  positive_columns_def nlargest_def mean_axis0_def slice_to_def sort_reverse_def
  add_method_def Let_def

lemma shop_history:
  "get_user_purchase_history shop ''new'' = []"
  "get_user_purchase_history shop ''warm'' = [''A'']"
  "get_user_purchase_history shop ''full'' = [''A'', ''B'', ''C'', ''D'', ''E'']"
  "get_user_purchase_history shop_untrained ''warm'' = [''A'']"
  "get_user_purchase_history shop_untrained ''full'' = [''A'', ''B'', ''C'', ''D'', ''E'']"
  "get_user_purchase_history stale ''u'' = [''P'']"
  by (simp_all add: get_user_purchase_history_def positive_columns_def example_defs)

lemma shop_new:
  "recommend remdups shop ''new'' 2 True =
     ([], Inr [\<lparr>product_id = ''A'', score = 9 / 10, origin = Source ''popularity'',
                 product_name = ''item A'', rec_category = ''gift'', rec_price = 2,
                 popularity = 90, rec_method = ''cold_start''\<rparr>,
               \<lparr>product_id = ''B'', score = 1 / 2, origin = Source ''popularity'',
                 product_name = ''item B'', rec_category = ''gift'', rec_price = 2,
                 popularity = 50, rec_method = ''cold_start''\<rparr>])"
  by (simp add: engine_defs example_defs)

lemma shop_warm:
  "recommend remdups shop ''warm'' 2 True =
     ([Content, Collaborative],
      Inr [\<lparr>product_id = ''B'', score = 37 / 40, origin = Blend 1 (3 / 4),
             product_name = ''item B'', rec_category = ''gift'', rec_price = 2,
             popularity = 50, rec_method = ''warm_start''\<rparr>,
           \<lparr>product_id = ''C'', score = 17 / 40, origin = Blend (1 / 2) (1 / 4),
             product_name = ''item C'', rec_category = ''gift'', rec_price = 2,
             popularity = 10, rec_method = ''warm_start''\<rparr>])"
  by (simp add: engine_defs example_defs)

lemma shop_untrained_warm:
  "recommend remdups shop_untrained ''warm'' 2 True =
     ([Content, Collaborative],
      Inr [\<lparr>product_id = ''B'', score = 7 / 10, origin = Blend 1 0,
             product_name = ''item B'', rec_category = ''gift'', rec_price = 2,
             popularity = 50, rec_method = ''warm_start''\<rparr>,
           \<lparr>product_id = ''C'', score = 7 / 20, origin = Blend (1 / 2) 0,
             product_name = ''item C'', rec_category = ''gift'', rec_price = 2,
             popularity = 10, rec_method = ''warm_start''\<rparr>])"
  by (simp add: engine_defs example_defs)

lemma shop_full:
  "recommend remdups shop ''full'' 2 True =
     ([Content, Collaborative],
      Inr [\<lparr>product_id = ''F'', score = 1, origin = Blend 1 1,
             product_name = ''item F'', rec_category = ''gift'', rec_price = 2,
             popularity = 4, rec_method = ''hybrid''\<rparr>])"
  by (simp add: engine_defs example_defs)

lemma stale_one: "recommend remdups stale ''u'' 1 True = ([Content, Collaborative], Inr [])"
  by (simp add: engine_defs example_defs)

lemma stale_two:
  "recommend remdups stale ''u'' 2 True =
     ([Content, Collaborative],
      Inr [\<lparr>product_id = ''B'', score = 31 / 45, origin = Blend (5 / 9) 1,
             product_name = ''item B'', rec_category = ''gift'', rec_price = 2,
             popularity = 50, rec_method = ''warm_start''\<rparr>])"
  by (simp add: engine_defs example_defs)


section \<open>What \<^verbatim>\<open>recommend\<close> returns\<close>

text \<open>
  C9. With \<^verbatim>\<open>exclude_purchased=True\<close>, whatever list \<^verbatim>\<open>recommend\<close> returns holds no
  product id of the user's purchase history (the history \<^verbatim>\<open>recommend\<close> itself reads
  from the user-item matrix).
\<close>

theorem recommend_excludes_purchased:
  assumes "snd (recommend iter h user_id top_k True) = Inr recs"
  shows "\<forall>r \<in> set recs. product_id r \<notin> set (get_user_purchase_history h user_id)"
proof
  fix r assume r: "r \<in> set recs"
  from recommend_shape[OF assms] obtain found m where
    recs: "recs = map (add_method m)
            (enrich_recommendations h
               (slice_to top_k
                  (filter (\<lambda>r. product_id r \<notin> set (get_user_purchase_history h user_id)) found)))"
    by auto
  from r obtain e where e: "e \<in> set (enrich_recommendations h
               (slice_to top_k
                  (filter (\<lambda>r. product_id r \<notin> set (get_user_purchase_history h user_id)) found)))"
    and re: "r = add_method m e"
    unfolding recs by auto
  from enrich_member[OF e] obtain r0 where
    r0: "r0 \<in> set (slice_to top_k
                  (filter (\<lambda>r. product_id r \<notin> set (get_user_purchase_history h user_id)) found))"
    and id: "product_id e = product_id r0"
    by auto
  from r0 slice_to_subset have "product_id r0 \<notin> set (get_user_purchase_history h user_id)"
    by fastforce
  then show "product_id r \<notin> set (get_user_purchase_history h user_id)"
    using re id by simp
qed

theorem recommend_excludes_purchased_witness:
  "snd (recommend remdups shop ''warm'' 2 True) =
     Inr [\<lparr>product_id = ''B'', score = 37 / 40, origin = Blend 1 (3 / 4),
             product_name = ''item B'', rec_category = ''gift'', rec_price = 2,
             popularity = 50, rec_method = ''warm_start''\<rparr>,
           \<lparr>product_id = ''C'', score = 17 / 40, origin = Blend (1 / 2) (1 / 4),
             product_name = ''item C'', rec_category = ''gift'', rec_price = 2,
             popularity = 10, rec_method = ''warm_start''\<rparr>] \<and>
   get_user_purchase_history shop ''warm'' = [''A''] \<and>
   ''B'' \<notin> set (get_user_purchase_history shop ''warm'') \<and>
   ''C'' \<notin> set (get_user_purchase_history shop ''warm'')"
proof -
  have e: "snd (recommend remdups shop ''warm'' 2 True) =
     Inr [\<lparr>product_id = ''B'', score = 37 / 40, origin = Blend 1 (3 / 4),
             product_name = ''item B'', rec_category = ''gift'', rec_price = 2,
             popularity = 50, rec_method = ''warm_start''\<rparr>,
           \<lparr>product_id = ''C'', score = 17 / 40, origin = Blend (1 / 2) (1 / 4),
             product_name = ''item C'', rec_category = ''gift'', rec_price = 2,
             popularity = 10, rec_method = ''warm_start''\<rparr>]"
    by (simp add: shop_warm)
  from recommend_excludes_purchased[OF e]
  have "''B'' \<notin> set (get_user_purchase_history shop ''warm'')"
    and "''C'' \<notin> set (get_user_purchase_history shop ''warm'')"
    by simp_all
  then show ?thesis
    using e shop_history(2) by blast
qed

text \<open>
  C10. For \<open>top_k \<ge> 0\<close> the list \<^verbatim>\<open>recommend\<close> returns has at most \<open>top_k\<close>
  items. The list is the enrichment of the candidates already cut to \<open>top_k\<close>, and
  enrichment keeps exactly the candidates whose id is a stock code of the catalog, so
  fewer than \<open>top_k\<close> can come back although more were scored: the recommender
  \<open>stale\<close> returns nothing for \<open>top_k = 1\<close> and returns \<open>B\<close> for \<open>top_k = 2\<close>.
\<close>

theorem recommend_at_most_top_k:
  "(0 \<le> top_k \<and> snd (recommend iter h user_id top_k exclude_purchased) = Inr recs \<longrightarrow>
      int (length recs) \<le> top_k) \<and>
   (snd (recommend iter h user_id top_k exclude_purchased) = Inr recs \<longrightarrow>
      (\<exists>found m. recs = map (add_method m)
         (enrich_recommendations h
            (slice_to top_k
               (if exclude_purchased
                then filter (\<lambda>r. product_id r \<notin> set (get_user_purchase_history h user_id)) found
                else found))))) \<and>
   map product_id (enrich_recommendations h candidates) =
     filter (\<lambda>p. p \<in> stock_code ` set (products_df h)) (map product_id candidates) \<and>
   snd (recommend remdups stale ''u'' 1 True) = Inr [] \<and>
   map product_id (projr (snd (recommend remdups stale ''u'' 2 True))) = [''B'']"
proof (intro conjI impI)
  assume a: "0 \<le> top_k \<and> snd (recommend iter h user_id top_k exclude_purchased) = Inr recs"
  from recommend_shape[of iter h user_id top_k exclude_purchased recs] a
  obtain found m where
    "recs = map (add_method m)
         (enrich_recommendations h
            (slice_to top_k
               (if exclude_purchased
                then filter (\<lambda>r. product_id r \<notin> set (get_user_purchase_history h user_id)) found
                else found)))"
    by blast
  then have "length recs \<le> length (slice_to top_k
               (if exclude_purchased
                then filter (\<lambda>r. product_id r \<notin> set (get_user_purchase_history h user_id)) found
                else found))"
    using enrich_length by simp
  then have "int (length recs) \<le> int (length (slice_to top_k
               (if exclude_purchased
                then filter (\<lambda>r. product_id r \<notin> set (get_user_purchase_history h user_id)) found
                else found)))"
    by simp
  moreover have "int (length (slice_to top_k
               (if exclude_purchased
                then filter (\<lambda>r. product_id r \<notin> set (get_user_purchase_history h user_id)) found
                else found))) \<le> top_k"
    using a by (intro slice_to_length) simp
  ultimately show "int (length recs) \<le> top_k"
    by linarith
next
  assume "snd (recommend iter h user_id top_k exclude_purchased) = Inr recs"
  then show "\<exists>found m. recs = map (add_method m)
         (enrich_recommendations h
            (slice_to top_k
               (if exclude_purchased
                then filter (\<lambda>r. product_id r \<notin> set (get_user_purchase_history h user_id)) found
                else found)))"
    by (rule recommend_shape)
next
  show "map product_id (enrich_recommendations h candidates) =
     filter (\<lambda>p. p \<in> stock_code ` set (products_df h)) (map product_id candidates)"
    by (rule enrich_ids)
  show "snd (recommend remdups stale ''u'' 1 True) = Inr []"
    by (simp add: stale_one)
  show "map product_id (projr (snd (recommend remdups stale ''u'' 2 True))) = [''B'']"
    by (simp add: stale_two)
qed

theorem recommend_at_most_top_k_witness:
  "(0::int) \<le> 2 \<and>
   snd (recommend remdups shop ''warm'' 2 True) =
     Inr [\<lparr>product_id = ''B'', score = 37 / 40, origin = Blend 1 (3 / 4),
             product_name = ''item B'', rec_category = ''gift'', rec_price = 2,
             popularity = 50, rec_method = ''warm_start''\<rparr>,
           \<lparr>product_id = ''C'', score = 17 / 40, origin = Blend (1 / 2) (1 / 4),
             product_name = ''item C'', rec_category = ''gift'', rec_price = 2,
             popularity = 10, rec_method = ''warm_start''\<rparr>] \<and>
   int (length [\<lparr>product_id = ''B'', score = 37 / 40, origin = Blend 1 (3 / 4),
             product_name = ''item B'', rec_category = ''gift'', rec_price = 2,
             popularity = 50, rec_method = ''warm_start''\<rparr>,
           \<lparr>product_id = ''C'', score = 17 / 40, origin = Blend (1 / 2) (1 / 4),
             product_name = ''item C'', rec_category = ''gift'', rec_price = 2,
             popularity = 10, rec_method = ''warm_start''\<rparr>]) \<le> 2 \<and>
   snd (recommend remdups stale ''u'' 1 True) = Inr [] \<and>
   int (length ([] :: recommendation list)) \<le> 1"
proof -
  have e: "snd (recommend remdups shop ''warm'' 2 True) =
     Inr [\<lparr>product_id = ''B'', score = 37 / 40, origin = Blend 1 (3 / 4),
             product_name = ''item B'', rec_category = ''gift'', rec_price = 2,
             popularity = 50, rec_method = ''warm_start''\<rparr>,
           \<lparr>product_id = ''C'', score = 17 / 40, origin = Blend (1 / 2) (1 / 4),
             product_name = ''item C'', rec_category = ''gift'', rec_price = 2,
             popularity = 10, rec_method = ''warm_start''\<rparr>]"
    by (simp add: shop_warm)
  have z: "(0::int) \<le> 2" by simp
  note T = recommend_at_most_top_k
      [where top_k = 2 and iter = remdups and h = shop and user_id = "''warm''"
         and exclude_purchased = True and candidates = "[]"
         and recs = "[\<lparr>product_id = ''B'', score = 37 / 40, origin = Blend 1 (3 / 4),
             product_name = ''item B'', rec_category = ''gift'', rec_price = 2,
             popularity = 50, rec_method = ''warm_start''\<rparr>,
           \<lparr>product_id = ''C'', score = 17 / 40, origin = Blend (1 / 2) (1 / 4),
             product_name = ''item C'', rec_category = ''gift'', rec_price = 2,
             popularity = 10, rec_method = ''warm_start''\<rparr>]"]
  show ?thesis
    using e z T
    by simp
qed

lemma cold_start_in_catalog:
  "\<forall>r \<in> set (cold_start_recommend h all_products top_k).
      product_id r \<in> stock_code ` set (products_df h)"
  using nlargest_subset[of top_k "products_df h"]
  by (auto simp: cold_start_recommend_def)

lemma cold_start_fields:
  "map product_id (cold_start_recommend h all_products top_k)
     = map stock_code (nlargest top_k (products_df h))"
  "map score (cold_start_recommend h all_products top_k)
     = map (\<lambda>row. popularity_score row / 100) (nlargest top_k (products_df h))"
  "map origin (cold_start_recommend h all_products top_k)
     = map (\<lambda>row. Source ''popularity'') (nlargest top_k (products_df h))"
  by (simp_all add: cold_start_recommend_def comp_def)

lemma recommend_ignores_cf_when_cold:
  assumes "get_user_purchase_history h user_id = []"
  shows "recommend iter (h\<lparr>cf_model := cf\<rparr>) user_id top_k exclude_purchased
           = recommend iter h user_id top_k exclude_purchased"
proof -
  have "get_user_purchase_history (h\<lparr>cf_model := cf\<rparr>) user_id = []"
    using assms by (simp add: get_user_purchase_history_def)
  then show ?thesis
    using assms
    by (simp add: recommend_cold cold_start_recommend_def enrich_cong[of "h\<lparr>cf_model := cf\<rparr>" h])
qed

text \<open>
  C5. For a user with an empty purchase history \<^verbatim>\<open>recommend\<close> calls neither model
  (so never the collaborative one: replacing that model, even by one that raises, changes
  nothing) and returns the \<open>top_k\<close> most popular catalog rows in descending
  popularity, each with score \<open>popularity / 100\<close>, source \<open>popularity\<close> and method
  \<open>cold_start\<close>.
\<close>

theorem recommend_cold_start_popularity_only:
  assumes "get_user_purchase_history h user_id = []"
  shows "fst (recommend iter h user_id top_k exclude_purchased) = [] \<and>
         recommend iter (h\<lparr>cf_model := cf\<rparr>) user_id top_k exclude_purchased
           = recommend iter h user_id top_k exclude_purchased \<and>
         (\<exists>recs. snd (recommend iter h user_id top_k exclude_purchased) = Inr recs \<and>
            map product_id recs = map stock_code (nlargest top_k (products_df h)) \<and>
            map score recs
              = map (\<lambda>row. popularity_score row / 100) (nlargest top_k (products_df h)) \<and>
            sorted_wrt (\<lambda>a b. score b \<le> score a) recs \<and>
            map origin recs = map (\<lambda>row. Source ''popularity'') (nlargest top_k (products_df h)) \<and>
            map rec_method recs = map (\<lambda>row. ''cold_start'') (nlargest top_k (products_df h)))"
proof -
  let ?cold = "cold_start_recommend h (map stock_code (products_df h)) top_k"
  let ?recs = "map (add_method ''cold_start'') (enrich_recommendations h ?cold)"
  have r: "recommend iter h user_id top_k exclude_purchased = ([], Inr ?recs)"
    by (rule recommend_cold[OF assms])
  from enrich_all_found[OF cold_start_in_catalog, of h "map stock_code (products_df h)" top_k]
  have e: "map product_id (enrich_recommendations h ?cold) = map product_id ?cold"
          "map score (enrich_recommendations h ?cold) = map score ?cold"
          "map origin (enrich_recommendations h ?cold) = map origin ?cold"
    by simp_all
  have i: "map product_id ?recs = map stock_code (nlargest top_k (products_df h))"
    using e(1) cold_start_fields(1)[of h] by (simp add: comp_def)
  have s: "map score ?recs = map (\<lambda>row. popularity_score row / 100) (nlargest top_k (products_df h))"
    using e(2) cold_start_fields(2)[of h] by (simp add: comp_def)
  have o: "map origin ?recs = map (\<lambda>row. Source ''popularity'') (nlargest top_k (products_df h))"
    using e(3) cold_start_fields(3)[of h] by (simp add: comp_def)
  have "length (enrich_recommendations h ?cold) = length (nlargest top_k (products_df h))"
    using e(1) cold_start_fields(1)[of h "map stock_code (products_df h)" top_k]
    by (metis length_map)
  then have m: "map rec_method ?recs = map (\<lambda>row. ''cold_start'') (nlargest top_k (products_df h))"
    by (simp add: comp_def map_replicate_const)
  have "sorted_wrt (\<lambda>a b. b \<le> a) (map (\<lambda>row. popularity_score row / 100) (nlargest top_k (products_df h)))"
    using nlargest_sorted[of top_k "products_df h"]
    by (simp add: sorted_wrt_map divide_right_mono)
  then have "sorted_wrt (\<lambda>a b. b \<le> a) (map score ?recs)"
    unfolding s .
  then have d: "sorted_wrt (\<lambda>a b. score b \<le> score a) ?recs"
    by (simp only: sorted_wrt_map)
  show ?thesis
    using r i s o m d recommend_ignores_cf_when_cold[OF assms] by simp
qed

theorem recommend_cold_start_popularity_only_witness:
  "get_user_purchase_history shop ''new'' = [] \<and>
   fst (recommend remdups shop ''new'' 2 True) = [] \<and>
   recommend remdups (shop\<lparr>cf_model := shop_cf\<lparr>trained := False\<rparr>\<rparr>) ''new'' 2 True
     = recommend remdups shop ''new'' 2 True \<and>
   snd (recommend remdups shop ''new'' 2 True) =
     Inr [\<lparr>product_id = ''A'', score = 9 / 10, origin = Source ''popularity'',
            product_name = ''item A'', rec_category = ''gift'', rec_price = 2,
            popularity = 90, rec_method = ''cold_start''\<rparr>,
          \<lparr>product_id = ''B'', score = 1 / 2, origin = Source ''popularity'',
            product_name = ''item B'', rec_category = ''gift'', rec_price = 2,
            popularity = 50, rec_method = ''cold_start''\<rparr>] \<and>
   map stock_code (nlargest 2 (products_df shop)) = [''A'', ''B'']"
proof -
  have h: "get_user_purchase_history shop ''new'' = []"
    by (rule shop_history(1))
  note T = recommend_cold_start_popularity_only
             [OF h, of remdups 2 True "shop_cf\<lparr>trained := False\<rparr>"]
  have n: "map stock_code (nlargest 2 (products_df shop)) = [''A'', ''B'']"
    by (simp add: engine_defs example_defs)
  show ?thesis
    using h T n shop_new by simp
qed

lemma warm_start_found:
  assumes "warm_start_recommend iter h user_id purchase_history all_products top_k = (calls, Inr found)"
  shows "\<exists>cbf_recs cf_recs.
           found = slice_to top_k (combine_scores iter cbf_recs cf_recs (7 / 10) (3 / 10))"
  using assms
  by (auto simp: warm_start_recommend_def Let_def split: sum.splits)

lemma history_ignores_weights:
  "get_user_purchase_history (h\<lparr>collaborative_weight := a, content_weight := b\<rparr>) user_id
     = get_user_purchase_history h user_id"
  by (simp add: get_user_purchase_history_def)

lemma warm_start_ignores_weights:
  "warm_start_recommend iter (h\<lparr>collaborative_weight := a, content_weight := b\<rparr>) user_id
       purchase_history all_products top_k
     = warm_start_recommend iter h user_id purchase_history all_products top_k"
  by (simp add: warm_start_recommend_def Let_def split: sum.splits)

text \<open>
  C6. For a user with at least one purchase and fewer than \<open>min_purchases_for_cf\<close>,
  what \<^verbatim>\<open>recommend\<close> returns does not depend on the configured weights, and every
  returned item is tagged \<open>warm_start\<close> and has
  \<open>score = 0.7 * cbf_score + 0.3 * cf_score\<close>.
\<close>

theorem recommend_warm_start_weights_fixed:
  assumes "get_user_purchase_history h user_id \<noteq> []"
    and "int (length (get_user_purchase_history h user_id)) < min_purchases_for_cf h"
  shows "recommend iter (h\<lparr>collaborative_weight := a, content_weight := b\<rparr>) user_id top_k
             exclude_purchased
           = recommend iter h user_id top_k exclude_purchased \<and>
         (snd (recommend iter h user_id top_k exclude_purchased) = Inr recs \<longrightarrow>
            (\<forall>r \<in> set recs. rec_method r = ''warm_start'' \<and>
               (\<exists>c f. origin r = Blend c f \<and> score r = 7 / 10 * c + 3 / 10 * f)))"
proof (rule conjI)
  let ?h = "h\<lparr>collaborative_weight := a, content_weight := b\<rparr>"
  have 1: "get_user_purchase_history ?h user_id \<noteq> []"
    and 2: "int (length (get_user_purchase_history ?h user_id)) < min_purchases_for_cf ?h"
    using assms by (simp_all add: history_ignores_weights)
  show "recommend iter ?h user_id top_k exclude_purchased
           = recommend iter h user_id top_k exclude_purchased"
    unfolding recommend_warm[OF 1 2] recommend_warm[OF assms]
    by (simp add: history_ignores_weights warm_start_ignores_weights enrich_cong[of ?h h]
          split: prod.splits sum.splits)
next
  show "snd (recommend iter h user_id top_k exclude_purchased) = Inr recs \<longrightarrow>
            (\<forall>r \<in> set recs. rec_method r = ''warm_start'' \<and>
               (\<exists>c f. origin r = Blend c f \<and> score r = 7 / 10 * c + 3 / 10 * f))"
  proof (rule impI, rule ballI)
  fix r
  assume s: "snd (recommend iter h user_id top_k exclude_purchased) = Inr recs"
    and r: "r \<in> set recs"
  let ?hist = "get_user_purchase_history h user_id"
  obtain calls res where w: "warm_start_recommend iter h user_id ?hist
                   (map stock_code (products_df h)) top_k = (calls, res)"
    by (cases "warm_start_recommend iter h user_id ?hist (map stock_code (products_df h)) top_k")
  then obtain found where f: "res = Inr found"
    and recs: "recs = map (add_method ''warm_start'')
                   (enrich_recommendations h
                      (slice_to top_k
                         (if exclude_purchased
                          then filter (\<lambda>r. product_id r \<notin> set ?hist) found
                          else found)))"
    using s unfolding recommend_warm[OF assms] by (cases res) auto
  from warm_start_found[OF w[unfolded f]] obtain cbf_recs cf_recs where
    found: "found = slice_to top_k (combine_scores iter cbf_recs cf_recs (7 / 10) (3 / 10))"
    by blast
  from r obtain e where e: "e \<in> set (enrich_recommendations h
                      (slice_to top_k
                         (if exclude_purchased
                          then filter (\<lambda>r. product_id r \<notin> set ?hist) found
                          else found)))"
    and re: "r = add_method ''warm_start'' e"
    unfolding recs by auto
  from enrich_member[OF e] obtain r0 where
    r0: "r0 \<in> set (slice_to top_k
                         (if exclude_purchased
                          then filter (\<lambda>r. product_id r \<notin> set ?hist) found
                          else found))"
    and eq: "score e = score r0" "origin e = origin r0"
    by auto
  have "r0 \<in> set found"
    using r0 slice_to_subset by (fastforce split: if_splits)
  then have "r0 \<in> set (combine_scores iter cbf_recs cf_recs (7 / 10) (3 / 10))"
    unfolding found using slice_to_subset by fastforce
  from combine_scores_member[OF this]
  have "\<exists>c f. origin r0 = Blend c f \<and> score r0 = 7 / 10 * c + 3 / 10 * f"
    by blast
  then show "rec_method r = ''warm_start'' \<and>
               (\<exists>c f. origin r = Blend c f \<and> score r = 7 / 10 * c + 3 / 10 * f)"
    using re eq by simp
  qed
qed

theorem recommend_warm_start_weights_fixed_witness:
  "get_user_purchase_history shop ''warm'' \<noteq> [] \<and>
   int (length (get_user_purchase_history shop ''warm'')) < min_purchases_for_cf shop \<and>
   recommend remdups (shop\<lparr>collaborative_weight := 1, content_weight := 0\<rparr>) ''warm'' 2 True
     = recommend remdups shop ''warm'' 2 True \<and>
   snd (recommend remdups shop ''warm'' 2 True) =
     Inr [\<lparr>product_id = ''B'', score = 37 / 40, origin = Blend 1 (3 / 4),
             product_name = ''item B'', rec_category = ''gift'', rec_price = 2,
             popularity = 50, rec_method = ''warm_start''\<rparr>,
           \<lparr>product_id = ''C'', score = 17 / 40, origin = Blend (1 / 2) (1 / 4),
             product_name = ''item C'', rec_category = ''gift'', rec_price = 2,
             popularity = 10, rec_method = ''warm_start''\<rparr>] \<and>
   (37 / 40 :: real) = 7 / 10 * 1 + 3 / 10 * (3 / 4) \<and>
   (17 / 40 :: real) = 7 / 10 * (1 / 2) + 3 / 10 * (1 / 4)"
proof -
  have h1: "get_user_purchase_history shop ''warm'' \<noteq> []"
    and h2: "int (length (get_user_purchase_history shop ''warm'')) < min_purchases_for_cf shop"
    by (simp_all add: shop_history) (simp add: shop_def)
  have e: "snd (recommend remdups shop ''warm'' 2 True) =
     Inr [\<lparr>product_id = ''B'', score = 37 / 40, origin = Blend 1 (3 / 4),
             product_name = ''item B'', rec_category = ''gift'', rec_price = 2,
             popularity = 50, rec_method = ''warm_start''\<rparr>,
           \<lparr>product_id = ''C'', score = 17 / 40, origin = Blend (1 / 2) (1 / 4),
             product_name = ''item C'', rec_category = ''gift'', rec_price = 2,
             popularity = 10, rec_method = ''warm_start''\<rparr>]"
    by (simp add: shop_warm)
  note T = recommend_warm_start_weights_fixed
             [OF h1 h2, where iter = remdups and a = 1 and b = 0 and top_k = 2
                and exclude_purchased = True]
  have i: "recommend remdups (shop\<lparr>collaborative_weight := 1, content_weight := 0\<rparr>) ''warm'' 2 True
     = recommend remdups shop ''warm'' 2 True"
    using T by blast
  show ?thesis
    using h1 h2 i e by simp
qed

lemma warm_start_degrades:
  assumes "predict_for_user (cf_model h) user_id all_products (top_k * 2) = Inl e"
  shows "warm_start_recommend iter h user_id purchase_history all_products top_k =
           (case recommend_for_user (cbf_model h) purchase_history all_products (top_k * 2) of
              Inl e' \<Rightarrow> ([Content], Inl e')
            | Inr cbf_recs \<Rightarrow>
                ([Content, Collaborative],
                 Inr (slice_to top_k (combine_scores iter cbf_recs [] (7 / 10) (3 / 10)))))"
  using assms by (simp add: warm_start_recommend_def split: sum.splits)

lemma hybrid_propagates:
  assumes "predict_for_user (cf_model h) user_id all_products (top_k * 2) = Inl e"
    and "recommend_for_user (cbf_model h) purchase_history all_products (top_k * 2) = Inr cbf_recs"
  shows "hybrid_recommend iter h user_id purchase_history all_products top_k =
           ([Content, Collaborative], Inl e)"
  using assms by (simp add: hybrid_recommend_def)

lemma recommend_hybrid_propagates:
  assumes "min_purchases_for_cf h \<le> int (length (get_user_purchase_history h user_id))"
    and "get_user_purchase_history h user_id \<noteq> []"
    and "predict_for_user (cf_model h) user_id (map stock_code (products_df h)) (top_k * 2) = Inl e"
    and "recommend_for_user (cbf_model h) (get_user_purchase_history h user_id)
           (map stock_code (products_df h)) (top_k * 2) = Inr cbf_recs"
  shows "recommend iter h user_id top_k exclude_purchased = ([Content, Collaborative], Inl e)"
  unfolding recommend_hybrid[OF assms(1,2)] hybrid_propagates[OF assms(3,4)] by simp

text \<open>
  C1. In the shop whose collaborative model raises (it is not trained), the user
  \<open>full\<close> is in the hybrid tier and \<^verbatim>\<open>recommend\<close> passes the exception on to the
  caller, while for the user \<open>warm\<close> in the warm-start tier it returns the
  content-only blend.
\<close>

theorem hybrid_tier_collaborative_failure_reaches_caller:
  "predict_for_user (cf_model shop_untrained) ''full''
       (map stock_code (products_df shop_untrained)) (2 * 2) = Inl ValueError \<and>
   min_purchases_for_cf shop_untrained
     \<le> int (length (get_user_purchase_history shop_untrained ''full'')) \<and>
   recommend remdups shop_untrained ''full'' 2 True = ([Content, Collaborative], Inl ValueError) \<and>
   int (length (get_user_purchase_history shop_untrained ''warm''))
     < min_purchases_for_cf shop_untrained \<and>
   recommend remdups shop_untrained ''warm'' 2 True =
     ([Content, Collaborative],
      Inr [\<lparr>product_id = ''B'', score = 7 / 10, origin = Blend 1 0,
             product_name = ''item B'', rec_category = ''gift'', rec_price = 2,
             popularity = 50, rec_method = ''warm_start''\<rparr>,
           \<lparr>product_id = ''C'', score = 7 / 20, origin = Blend (1 / 2) 0,
             product_name = ''item C'', rec_category = ''gift'', rec_price = 2,
             popularity = 10, rec_method = ''warm_start''\<rparr>])"
proof -
  have p: "predict_for_user (cf_model shop_untrained) ''full''
       (map stock_code (products_df shop_untrained)) (2 * 2) = Inl ValueError"
    by (simp add: predict_for_user_def example_defs)
  have m: "min_purchases_for_cf shop_untrained
     \<le> int (length (get_user_purchase_history shop_untrained ''full''))"
    "int (length (get_user_purchase_history shop_untrained ''warm''))
     < min_purchases_for_cf shop_untrained"
    by (simp_all add: shop_history) (simp_all add: example_defs)
  have f: "recommend remdups shop_untrained ''full'' 2 True = ([Content, Collaborative], Inl ValueError)"
    by (simp add: engine_defs example_defs)
  show ?thesis
    using p m f shop_untrained_warm by simp
qed

end
